theory Spec2Isabelle
  imports Complex_Main
begin

section \<open>The bingo room server (src/server.js)\<close>

text \<open>
  The server keeps one process-wide object \<open>rooms\<close> and, for every connection, the
  object \<open>socket.data\<close>. Each handler of \<open>io.on("connection", ...)\<close> is modelled as a
  function from the state and the fields it destructures from its payload to the
  acknowledgement it passes to \<open>callback\<close>, the state it leaves and the events it emits.

  What the model fixes about the JavaScript runtime:
  \<^item> a number is a \<open>jsnum\<close>: a finite value, an infinity or NaN. The handlers only
    compare numbers, so a finite double is represented by its value (\<open>+0\<close> and \<open>-0\<close>
    are one value, as they are for \<open>includes\<close> and \<open>>\<close>);
  \<^item> payload fields that the handlers pass to \<open>Number(...)\<close> are JSON primitives
    (\<open>jsval\<close>); the conversion of a string to a number belongs to the runtime and is a
    parameter \<open>s2n\<close> of the handlers that convert;
  \<^item> payload fields on which the handlers call \<open>.trim()\<close> are strings, or omitted
    (\<open>None\<close>); a card layout is any JSON value;
  \<^item> strings are lists of code units below 256;
  \<^item> \<open>socket.id\<close> is an identifier handed out by the transport, never empty and so
    always truthy: a natural number here;
  \<^item> \<open>Math.random()\<close> is an input of the handler that calls it; the arithmetic of line
    29 on it is IEEE 754 double arithmetic, with its rounding;
  \<^item> \<open>rooms\<close> and \<open>players\<close> are looked up by own properties only: an id or key that
    names a member of \<open>Object.prototype\<close> (such as \<open>constructor\<close>) is outside the model;
  \<^item> \<open>console.log\<close> and \<open>socket.join\<close> are left to the transport; an emitted event is
    recorded with the target it is sent to;
  \<^item> every request comes with a payload object and a \<open>callback\<close>: the acknowledgement
    is the value the handler passes to it.
\<close>

subsection \<open>Values\<close>

datatype jsnum = Fin rat | PosInf | NegInf | NaN

datatype jsval = JUndefined | JNull | JBool bool | JNum jsnum | JStr string

datatype json = Prim jsval | Arr "json list" | Obj "(string \<times> json) list"

text \<open>\<open>Number.isFinite\<close> on a number.\<close>

fun isFinite :: "jsnum \<Rightarrow> bool" where
  "isFinite (Fin x) = True"
| "isFinite PosInf = False"
| "isFinite NegInf = False"
| "isFinite NaN = False"

text \<open>The operator \<open>>\<close> on two numbers: false as soon as one side is NaN.\<close>

fun js_gt :: "jsnum \<Rightarrow> jsnum \<Rightarrow> bool" where
  "js_gt NaN b = False"
| "js_gt a NaN = False"
| "js_gt (Fin x) (Fin y) = (y < x)"
| "js_gt (Fin x) PosInf = False"
| "js_gt (Fin x) NegInf = True"
| "js_gt PosInf PosInf = False"
| "js_gt PosInf b = True"
| "js_gt NegInf b = False"

text \<open>
  \<open>Number(v)\<close> on a primitive: \<open>undefined\<close> gives NaN, \<open>null\<close> gives 0, \<open>true\<close> and
  \<open>false\<close> give 1 and 0, a number is itself, a string is converted by the runtime.
\<close>

fun Number :: "(string \<Rightarrow> jsnum) \<Rightarrow> jsval \<Rightarrow> jsnum" where
  "Number s2n JUndefined = NaN"
| "Number s2n JNull = Fin 0"
| "Number s2n (JBool b) = (if b then Fin 1 else Fin 0)"
| "Number s2n (JNum n) = n"
| "Number s2n (JStr s) = s2n s"

text \<open>Truthiness, as \<open>||\<close> and \<open>!\<close> test it. Arrays and objects are always truthy.\<close>

fun truthy_val :: "jsval \<Rightarrow> bool" where
  "truthy_val JUndefined = False"
| "truthy_val JNull = False"
| "truthy_val (JBool b) = b"
| "truthy_val (JNum n) = (n \<noteq> NaN \<and> n \<noteq> Fin 0)"
| "truthy_val (JStr s) = (s \<noteq> [])"

fun truthy :: "json \<Rightarrow> bool" where
  "truthy (Prim v) = truthy_val v"
| "truthy (Arr xs) = True"
| "truthy (Obj kvs) = True"

subsection \<open>Strings\<close>

text \<open>
  The white space \<open>String.prototype.trim\<close> removes, among code units below 256: tab,
  line feed, vertical tab, form feed, carriage return, space and no-break space.
\<close>

definition js_space :: "char \<Rightarrow> bool" where
  "js_space c = (of_char c \<in> {9::nat, 10, 11, 12, 13, 32, 160})"

definition trim :: "string \<Rightarrow> string" where
  "trim s = rev (dropWhile js_space (rev (dropWhile js_space s)))"

text \<open>\<open>s.slice(a, b)\<close> for \<open>0 \<le> a \<le> b\<close>.\<close>

definition slice :: "nat \<Rightarrow> nat \<Rightarrow> string \<Rightarrow> string" where
  "slice a b s = take (b - a) (drop a s)"

definition is_digit :: "char \<Rightarrow> bool" where
  "is_digit c = (48 \<le> (of_char c :: nat) \<and> (of_char c :: nat) \<le> 57)"

definition digit_char :: "nat \<Rightarrow> char" where
  "digit_char d = ''0123456789'' ! d"

text \<open>\<open>n.toString()\<close> for a non-negative integer below \<open>10^21\<close>: its decimal digits.\<close>

fun toString :: "nat \<Rightarrow> string" where
  "toString n = (if n < 10 then [digit_char n] else toString (n div 10) @ [digit_char (n mod 10)])"

subsection \<open>Doubles\<close>

text \<open>
  Line 29 computes in IEEE 754 doubles. A finite non-negative double is a number
  \<open>m * 2^e\<close> with \<open>m < 2^53\<close> and \<open>-1074 \<le> e\<close>, written \<open>Double m e\<close> here (one double
  may be written with several pairs). An operation returns the exact result rounded
  to the nearest double, and of two nearest ones the one with the even mantissa.
  Overflow to \<open>Infinity\<close> is left out: the values of line 29 stay below \<open>2^14\<close>.
\<close>

datatype double = Double nat int

fun dval :: "double \<Rightarrow> rat" where
  "dval (Double m e) = of_nat m * 2 powi e"

text \<open>The number of significant bits of a mantissa.\<close>

fun bits :: "nat \<Rightarrow> nat" where
  "bits n = (if n = 0 then 0 else Suc (bits (n div 2)))"

declare bits.simps [simp del]

text \<open>\<open>m / 2^k\<close> rounded to the nearest integer, a tie to the even one.\<close>

definition rne :: "nat \<Rightarrow> nat \<Rightarrow> nat" where
  "rne m k =
     (let q = m div 2 ^ k; r = m mod 2 ^ k
      in if 2 * r < 2 ^ k then q
         else if 2 ^ k < 2 * r then q + 1
         else if even q then q else q + 1)"

text \<open>
  The exact value \<open>m * 2^e\<close> rounded to a double: to 53 significant bits, or, below
  the normal range, to a multiple of \<open>2^-1074\<close>.
\<close>

definition round53 :: "nat \<Rightarrow> int \<Rightarrow> double" where
  "round53 m e =
     (let k = nat (max (int (bits m) - 53) (- 1074 - e))
      in Double (rne m k) (e + int k))"

text \<open>The operators \<open>*\<close> and \<open>+\<close> on two non-negative doubles, and \<open>Math.floor\<close>.\<close>

fun dmul :: "double \<Rightarrow> double \<Rightarrow> double" where
  "dmul (Double m1 e1) (Double m2 e2) = round53 (m1 * m2) (e1 + e2)"

fun dadd :: "double \<Rightarrow> double \<Rightarrow> double" where
  "dadd (Double m1 e1) (Double m2 e2) =
     (let g = min e1 e2
      in round53 (m1 * 2 ^ nat (e1 - g) + m2 * 2 ^ nat (e2 - g)) g)"

fun dfloor :: "double \<Rightarrow> nat" where
  "dfloor (Double m e) = (if 0 \<le> e then m * 2 ^ nat e else m div 2 ^ nat (- e))"

text \<open>What \<open>Math.random()\<close> returns: a double \<open>r\<close> with \<open>0 \<le> r < 1\<close>.\<close>

fun unit_double :: "double \<Rightarrow> bool" where
  "unit_double (Double m e) = (m < 2 ^ 53 \<and> - 1074 \<le> e \<and> dval (Double m e) < 1)"

text \<open>
  \<open>generateSecretKey\<close>, lines 28-30: \<open>Math.floor(1000 + Math.random() * 9000).toString()\<close>;
  \<open>r\<close> is the value of \<open>Math.random()\<close>.
\<close>

definition generateSecretKey :: "double \<Rightarrow> string" where
  "generateSecretKey r = toString (dfloor (dadd (Double 1000 0) (dmul r (Double 9000 0))))"

subsection \<open>Objects used as dictionaries\<close>

text \<open>
  \<open>Object.values\<close> enumerates the own properties of an object with the integer-like
  keys first (canonical decimal strings up to \<open>2^32 - 2\<close>), in ascending numeric order,
  and then the other keys in the order in which they were created. The \<open>players\<close>
  object is an association list kept in that order.
\<close>

definition digits_value :: "string \<Rightarrow> nat" where
  "digits_value s = foldl (\<lambda>a c. 10 * a + (of_char c - 48)) 0 s"

definition array_index :: "string \<Rightarrow> nat option" where
  "array_index s =
     (if s \<noteq> [] \<and> list_all is_digit s \<and> (s = ''0'' \<or> hd s \<noteq> CHR ''0'')
         \<and> digits_value s \<le> 4294967294
      then Some (digits_value s) else None)"

fun insert_index :: "nat \<Rightarrow> string \<Rightarrow> 'v \<Rightarrow> (string \<times> 'v) list \<Rightarrow> (string \<times> 'v) list" where
  "insert_index i k v [] = [(k, v)]"
| "insert_index i k v ((k', v') # ps) =
     (case array_index k' of
        Some j \<Rightarrow> if j < i then (k', v') # insert_index i k v ps else (k, v) # (k', v') # ps
      | None \<Rightarrow> (k, v) # (k', v') # ps)"

fun replace_value :: "string \<Rightarrow> 'v \<Rightarrow> (string \<times> 'v) list \<Rightarrow> (string \<times> 'v) list" where
  "replace_value k v [] = []"
| "replace_value k v ((k', v') # ps) =
     (if k' = k then (k, v) # ps else (k', v') # replace_value k v ps)"

text \<open>\<open>obj[k] = v\<close>: an existing property keeps its place, a new one is created.\<close>

definition js_put :: "string \<Rightarrow> 'v \<Rightarrow> (string \<times> 'v) list \<Rightarrow> (string \<times> 'v) list" where
  "js_put k v ps =
     (if map_of ps k \<noteq> None then replace_value k v ps
      else case array_index k of
             Some i \<Rightarrow> insert_index i k v ps
           | None \<Rightarrow> ps @ [(k, v)])"

subsection \<open>The state\<close>

type_synonym socket_id = nat

record player =
  name :: string
  secretKey :: string
  socketId :: "socket_id option"
  cardNumbers :: json

record room =
  roomId :: string
  hostSocketId :: "socket_id option"
  minNumber :: jsnum
  maxNumber :: jsnum
  drawnNumbers :: "jsnum list"
  players :: "(string \<times> player) list"

datatype role = Host | Player

text \<open>\<open>socket.data\<close>: every field is \<open>undefined\<close> until a handler sets it.\<close>

record socket_data =
  data_role :: "role option"
  data_roomId :: "string option"
  data_secretKey :: "string option"

record state =
  rooms :: "string \<rightharpoonup> room"
  sockets :: "socket_id \<Rightarrow> socket_data"

definition no_data :: socket_data where
  "no_data = \<lparr>data_role = None, data_roomId = None, data_secretKey = None\<rparr>"

definition init :: state where
  "init = \<lparr>rooms = Map.empty, sockets = (\<lambda>_. no_data)\<rparr>"

subsection \<open>Acknowledgements and events\<close>

text \<open>
  The negative acknowledgements \<open>{ok: false, message}\<close>, named after what their
  messages say: lines 56-59, 68-71, 126 and 195, 129, 200, 206. \<open>player:saveCard\<close>
  answers \<open>{ok: false}\<close> with no message (line 181).
\<close>

datatype error =
    InvalidRangeError
  | HostAlreadyPresentError
  | RoomNotFoundError
  | MissingNameError
  | NotHostError
  | InvalidNumberError
  | NotSaved

record create_ack =
  ack_rejoin :: bool
  ack_room :: room

record room_summary =
  sum_roomId :: string
  sum_minNumber :: jsnum
  sum_maxNumber :: jsnum
  sum_drawnNumbers :: "jsnum list"

record join_ack =
  join_name :: string
  join_secretKey :: string
  join_rejoin :: bool
  join_cardNumbers :: json
  join_room :: room_summary

datatype target = ToSocket socket_id | ToRoom string

datatype event =
    PlayersUpdate "string list"
  | NumberDrawn jsnum "jsnum list"
  | PlayerBingo string

type_synonym emit = "target \<times> event"

subsection \<open>The handlers\<close>

text \<open>
  The arguments of a handler are the fields its first line destructures from \<open>data\<close>.
  They are called \<open>rid\<close> (for \<open>roomId\<close>), \<open>nm\<close> (for \<open>name\<close>), \<open>secret\<close> (for
  \<open>secretKey\<close>), \<open>cards\<close> (for \<open>cardNumbers\<close>), \<open>num\<close> (for \<open>number\<close>), \<open>minN\<close> and
  \<open>maxN\<close> (for \<open>minNumber\<close> and \<open>maxNumber\<close>), since the source's names are the fields
  of the records above. \<open>sid\<close> is \<open>socket.id\<close>.
\<close>

text \<open>
  Lines 38-40: \<open>Object.values(players).filter((p) => p.socketId).map((p) => p.name)\<close>,
  the names of the players that are online.
\<close>

definition online_names :: "(string \<times> player) list \<Rightarrow> string list" where
  "online_names ps = map name (filter (\<lambda>p. socketId p \<noteq> None) (map snd ps))"

text \<open>\<open>emitPlayersUpdate\<close>, lines 33-43: these names are sent to the host, if there is one.\<close>

definition emitPlayersUpdate :: "state \<Rightarrow> string \<Rightarrow> emit list" where
  "emitPlayersUpdate st rid =
     (case rooms st rid of
        None \<Rightarrow> []
      | Some room \<Rightarrow>
          (case hostSocketId room of
             None \<Rightarrow> []
           | Some h \<Rightarrow> [(ToSocket h, PlayersUpdate (online_names (players room)))]))"

text \<open>Line 51: \<open>(roomId && roomId.trim()) || null\<close>.\<close>

definition inputId :: "string option \<Rightarrow> string option" where
  "inputId rid =
     (case rid of
        None \<Rightarrow> None
      | Some r \<Rightarrow> if r = [] then None else if trim r = [] then None else Some (trim r))"

text \<open>Line 63: \<open>inputId && rooms[inputId]\<close>, with the id when the room is there.\<close>

definition known_room :: "state \<Rightarrow> string option \<Rightarrow> (string \<times> room) option" where
  "known_room st i =
     (case i of
        None \<Rightarrow> None
      | Some k \<Rightarrow> (case rooms st k of None \<Rightarrow> None | Some room \<Rightarrow> Some (k, room)))"

text \<open>
  \<open>host:createRoom\<close>, lines 49-118. \<open>rnd36\<close> is the string
  \<open>Math.random().toString(36)\<close> of line 96, read only when no id was given.
\<close>

definition host_createRoom ::
  "(string \<Rightarrow> jsnum) \<Rightarrow> string \<Rightarrow> state \<Rightarrow> socket_id \<Rightarrow> string option \<Rightarrow> jsval \<Rightarrow> jsval
     \<Rightarrow> (error + create_ack) \<times> state \<times> emit list" where
  "host_createRoom s2n rnd36 st sid rid minN maxN =
     (let mn = Number s2n minN; mx = Number s2n maxN in
      if \<not> isFinite mn \<or> \<not> isFinite mx \<or> js_gt mn mx then (Inl InvalidRangeError, st, [])
      else
        (case known_room st (inputId rid) of
           Some (i, room) \<Rightarrow>
             if hostSocketId room \<noteq> None then (Inl HostAlreadyPresentError, st, [])
             else
               let room' = room\<lparr>hostSocketId := Some sid, minNumber := mn, maxNumber := mx\<rparr>;
                   st' = st\<lparr>rooms := (rooms st)(i \<mapsto> room'),
                            sockets := (sockets st)(sid := (sockets st sid)
                              \<lparr>data_role := Some Host, data_roomId := Some i\<rparr>)\<rparr>
               in (Inr \<lparr>ack_rejoin = True, ack_room = room'\<rparr>, st', emitPlayersUpdate st' i)
         | None \<Rightarrow>
             let i = (case inputId rid of Some k \<Rightarrow> k | None \<Rightarrow> slice 2 8 rnd36);
                 room' = \<lparr>roomId = i, hostSocketId = Some sid, minNumber = mn, maxNumber = mx,
                          drawnNumbers = [], players = []\<rparr>;
                 st' = st\<lparr>rooms := (rooms st)(i \<mapsto> room'),
                          sockets := (sockets st)(sid := (sockets st sid)
                            \<lparr>data_role := Some Host, data_roomId := Some i\<rparr>)\<rparr>
             in (Inr \<lparr>ack_rejoin = False, ack_room = room'\<rparr>, st', [])))"

text \<open>\<open>player:joinRoom\<close>, lines 121-174. \<open>rnd\<close> is the \<open>Math.random()\<close> of line 29.\<close>

definition player_joinRoom ::
  "double \<Rightarrow> state \<Rightarrow> socket_id \<Rightarrow> string \<Rightarrow> string option \<Rightarrow> string option
     \<Rightarrow> (error + join_ack) \<times> state \<times> emit list" where
  "player_joinRoom rnd st sid rid nm secret =
     (case rooms st rid of
        None \<Rightarrow> (Inl RoomNotFoundError, st, [])
      | Some room \<Rightarrow>
          (case nm of
             None \<Rightarrow> (Inl MissingNameError, st, [])
           | Some n \<Rightarrow>
               if n = [] \<or> trim n = [] then (Inl MissingNameError, st, [])
               else
                 let key0 = trim (case secret of None \<Rightarrow> [] | Some k \<Rightarrow> k);
                     key = (if key0 = [] then generateSecretKey rnd else key0);
                     existed = (map_of (players room) key \<noteq> None);
                     player0 = (case map_of (players room) key of
                                  Some p \<Rightarrow> p
                                | None \<Rightarrow> \<lparr>name = n, secretKey = key, socketId = None,
                                            cardNumbers = Prim JNull\<rparr>);
                     player1 = player0\<lparr>name := n, socketId := Some sid\<rparr>;
                     room' = room\<lparr>players := js_put key player1 (players room)\<rparr>;
                     st' = st\<lparr>rooms := (rooms st)(rid \<mapsto> room'),
                              sockets := (sockets st)(sid :=
                                \<lparr>data_role = Some Player, data_roomId = Some rid,
                                 data_secretKey = Some key\<rparr>)\<rparr>
                 in (Inr \<lparr>join_name = n, join_secretKey = key, join_rejoin = existed,
                          join_cardNumbers =
                            (if truthy (cardNumbers player1) then cardNumbers player1 else Prim JNull),
                          join_room = \<lparr>sum_roomId = rid, sum_minNumber = minNumber room',
                                       sum_maxNumber = maxNumber room',
                                       sum_drawnNumbers = drawnNumbers room'\<rparr>\<rparr>,
                     st', emitPlayersUpdate st' rid)))"

text \<open>\<open>player:saveCard\<close>, lines 177-188.\<close>

definition player_saveCard ::
  "state \<Rightarrow> string \<Rightarrow> string \<Rightarrow> json \<Rightarrow> (error + unit) \<times> state \<times> emit list" where
  "player_saveCard st rid secret cards =
     (case rooms st rid of
        None \<Rightarrow> (Inl NotSaved, st, [])
      | Some room \<Rightarrow>
          (case map_of (players room) secret of
             None \<Rightarrow> (Inl NotSaved, st, [])
           | Some p \<Rightarrow>
               (Inr (),
                st\<lparr>rooms := (rooms st)(rid \<mapsto>
                      room\<lparr>players := js_put secret (p\<lparr>cardNumbers := cards\<rparr>) (players room)\<rparr>)\<rparr>,
                [])))"

text \<open>\<open>host:drawNumber\<close>, lines 191-222.\<close>

definition host_drawNumber ::
  "(string \<Rightarrow> jsnum) \<Rightarrow> state \<Rightarrow> socket_id \<Rightarrow> string \<Rightarrow> jsval
     \<Rightarrow> (error + unit) \<times> state \<times> emit list" where
  "host_drawNumber s2n st sid rid num =
     (case rooms st rid of
        None \<Rightarrow> (Inl RoomNotFoundError, st, [])
      | Some room \<Rightarrow>
          if Some sid \<noteq> hostSocketId room then (Inl NotHostError, st, [])
          else
            let n = Number s2n num in
            if \<not> isFinite n then (Inl InvalidNumberError, st, [])
            else
              let drawn = (if n \<in> set (drawnNumbers room) then drawnNumbers room
                           else drawnNumbers room @ [n]);
                  st' = st\<lparr>rooms := (rooms st)(rid \<mapsto> room\<lparr>drawnNumbers := drawn\<rparr>)\<rparr>
              in (Inr (), st', [(ToRoom rid, NumberDrawn n drawn)]))"

text \<open>\<open>player:bingo\<close>, lines 225-231: no acknowledgement, no change of state.\<close>

definition player_bingo :: "state \<Rightarrow> string \<Rightarrow> string \<Rightarrow> emit list" where
  "player_bingo st rid nm =
     (case rooms st rid of
        None \<Rightarrow> []
      | Some room \<Rightarrow>
          (case hostSocketId room of
             None \<Rightarrow> []
           | Some h \<Rightarrow> [(ToSocket h, PlayerBingo nm)]))"

text \<open>
  \<open>disconnect\<close>, lines 234-257. An \<open>undefined\<close> key of \<open>socket.data\<close> is looked up as
  the property \<open>"undefined"\<close> (line 250).
\<close>

definition disconnect :: "state \<Rightarrow> socket_id \<Rightarrow> state \<times> emit list" where
  "disconnect st sid =
     (case data_role (sockets st sid) of
        None \<Rightarrow> (st, [])
      | Some r \<Rightarrow>
          (case data_roomId (sockets st sid) of
             None \<Rightarrow> (st, [])
           | Some rid \<Rightarrow>
               if rid = [] then (st, [])
               else
                 (case rooms st rid of
                    None \<Rightarrow> (st, [])
                  | Some room \<Rightarrow>
                      (case r of
                         Host \<Rightarrow>
                           (st\<lparr>rooms := (rooms st)(rid \<mapsto> room\<lparr>hostSocketId := None\<rparr>)\<rparr>, [])
                       | Player \<Rightarrow>
                           let key = (case data_secretKey (sockets st sid) of
                                        None \<Rightarrow> ''undefined''
                                      | Some k \<Rightarrow> k);
                               room' = (case map_of (players room) key of
                                          None \<Rightarrow> room
                                        | Some p \<Rightarrow>
                                            room\<lparr>players :=
                                              js_put key (p\<lparr>socketId := None\<rparr>) (players room)\<rparr>);
                               st' = st\<lparr>rooms := (rooms st)(rid \<mapsto> room')\<rparr>
                           in (st', emitPlayersUpdate st' rid)))))"

text \<open>The record of a player in a room, by room id and secret key.\<close>

definition player_at :: "state \<Rightarrow> string \<Rightarrow> string \<Rightarrow> player option" where
  "player_at st rid key =
     (case rooms st rid of None \<Rightarrow> None | Some room \<Rightarrow> map_of (players room) key)"

text \<open>The draw history of the room with a given id; empty when there is no such room.\<close>

definition drawn :: "state \<Rightarrow> string \<Rightarrow> jsnum list" where
  "drawn st rid = (case rooms st rid of None \<Rightarrow> [] | Some room \<Rightarrow> drawnNumbers room)"

subsection \<open>Sequences of operations\<close>

text \<open>
  One constructor for each event of the server, under the name the specification
  gives it, with the connection that sends it and its payload.
\<close>

datatype op =
    CreateOrRejoinRoom socket_id string "string option" jsval jsval
  | JoinRoom socket_id double string "string option" "string option"
  | SaveCard string string json
  | DrawNumber socket_id string jsval
  | ReportBingo string string
  | HandleDisconnect socket_id

fun step :: "(string \<Rightarrow> jsnum) \<Rightarrow> state \<Rightarrow> op \<Rightarrow> state" where
  "step s2n st (CreateOrRejoinRoom sid rnd36 rid minN maxN) =
     fst (snd (host_createRoom s2n rnd36 st sid rid minN maxN))"
| "step s2n st (JoinRoom sid rnd rid nm secret) =
     fst (snd (player_joinRoom rnd st sid rid nm secret))"
| "step s2n st (SaveCard rid secret cards) = fst (snd (player_saveCard st rid secret cards))"
| "step s2n st (DrawNumber sid rid num) = fst (snd (host_drawNumber s2n st sid rid num))"
| "step s2n st (ReportBingo rid nm) = st"
| "step s2n st (HandleDisconnect sid) = fst (disconnect st sid)"

definition run :: "(string \<Rightarrow> jsnum) \<Rightarrow> state \<Rightarrow> op list \<Rightarrow> state" where
  "run s2n st ops = foldl (step s2n) st ops"

text \<open>
  A call of \<open>host:createRoom\<close> that passes the validation of line 55, resolves no id
  of its own at line 51 and generates the id \<open>i\<close> at line 96: line 98 then stores a
  new room under \<open>i\<close>, whether or not the registry has a room there.
\<close>

fun overwrites :: "(string \<Rightarrow> jsnum) \<Rightarrow> string \<Rightarrow> op \<Rightarrow> bool" where
  "overwrites s2n i (CreateOrRejoinRoom sid rnd36 rid minN maxN) =
     (isFinite (Number s2n minN) \<and> isFinite (Number s2n maxN)
      \<and> \<not> js_gt (Number s2n minN) (Number s2n maxN)
      \<and> inputId rid = None \<and> slice 2 8 rnd36 = i)"
| "overwrites s2n i other = False"

text \<open>Such a call when the history of room \<open>i\<close> is not empty.\<close>

definition loses_history :: "(string \<Rightarrow> jsnum) \<Rightarrow> state \<Rightarrow> string \<Rightarrow> op \<Rightarrow> bool" where
  "loses_history s2n st i x = (overwrites s2n i x \<and> drawn st i \<noteq> [])"

text \<open>A sequence of operations none of which is such a call, in the state it is run in.\<close>

fun history_kept :: "(string \<Rightarrow> jsnum) \<Rightarrow> state \<Rightarrow> string \<Rightarrow> op list \<Rightarrow> bool" where
  "history_kept s2n st i [] = True"
| "history_kept s2n st i (x # xs) =
     (\<not> loses_history s2n st i x \<and> history_kept s2n (step s2n st x) i xs)"

text \<open>
  A conversion of strings for the examples: a non-empty string of decimal digits is
  its value, any other string is NaN. The runtime reads more strings as numbers
  (signs, fractions, exponents, radix prefixes, white space around, the empty
  string); the two agree on the strings of one to fifteen digits and on \<open>abc\<close>,
  which are the strings the examples convert.
\<close>

definition decimal_s2n :: "string \<Rightarrow> jsnum" where
  "decimal_s2n s =
     (if s \<noteq> [] \<and> list_all is_digit s then Fin (of_nat (digits_value s)) else NaN)"

subsection \<open>A registry for the examples\<close>

text \<open>
  Room \<open>R1\<close> with range 1 to 75, hosted by connection 1, after 17 was drawn; Alice
  joined on connection 2 under the key \<open>1234\<close> and saved a card.
\<close>

definition alice :: player where
  "alice = \<lparr>name = ''Alice'', secretKey = ''1234'', socketId = Some 2,
            cardNumbers = Arr [Prim (JNum (Fin 3)), Prim (JNum (Fin 17))]\<rparr>"

definition room_R1 :: room where
  "room_R1 = \<lparr>roomId = ''R1'', hostSocketId = Some 1, minNumber = Fin 1, maxNumber = Fin 75,
              drawnNumbers = [Fin 17], players = [(''1234'', alice)]\<rparr>"

definition state_R1 :: state where
  "state_R1 =
     \<lparr>rooms = [''R1'' \<mapsto> room_R1],
      sockets = (\<lambda>_. no_data)
        (1 := \<lparr>data_role = Some Host, data_roomId = Some ''R1'', data_secretKey = None\<rparr>,
         2 := \<lparr>data_role = Some Player, data_roomId = Some ''R1'',
               data_secretKey = Some ''1234''\<rparr>)\<rparr>"

text \<open>The same registry after the host's connection was closed.\<close>

definition room_R1_left :: room where
  "room_R1_left = room_R1\<lparr>hostSocketId := None\<rparr>"

definition state_R1_left :: state where
  "state_R1_left = state_R1\<lparr>rooms := [''R1'' \<mapsto> room_R1_left]\<rparr>"

text \<open>A room as line 98 creates it: connection 1 asks for the id \<open>R1\<close> in an empty registry.\<close>

definition room_new :: room where
  "room_new = \<lparr>roomId = ''R1'', hostSocketId = Some 1, minNumber = Fin 1, maxNumber = Fin 75,
               drawnNumbers = [], players = []\<rparr>"

definition state_new :: state where
  "state_new =
     fst (snd (host_createRoom decimal_s2n ''0.k3x9q2'' init 1 (Some ''R1'')
                 (JNum (Fin 1)) (JNum (Fin 75))))"

text \<open>
  Operations on the registry of \<open>R1\<close>: the host draws 17 again, as a string, then 42,
  and leaves; another connection creates a room without asking for an id.
\<close>

definition example_ops :: "op list" where
  "example_ops =
     [DrawNumber 1 ''R1'' (JStr ''17''), DrawNumber 1 ''R1'' (JNum (Fin 42)), HandleDisconnect 1,
      CreateOrRejoinRoom 3 ''0.k3x9q2'' None (JNum (Fin 1)) (JNum (Fin 75))]"

text \<open>
  Two connections create a room without asking for an id, and \<open>Math.random()\<close> gives
  both the same digits; in between, the first host draws 17.
\<close>

definition first_host_ops :: "op list" where
  "first_host_ops =
     [CreateOrRejoinRoom 1 ''0.k3x9q2'' None (JNum (Fin 1)) (JNum (Fin 75)),
      DrawNumber 1 ''k3x9q2'' (JNum (Fin 17))]"

definition second_host_op :: op where
  "second_host_op = CreateOrRejoinRoom 2 ''0.k3x9q2'' None (JNum (Fin 1)) (JNum (Fin 75))"

text \<open>
  Connection 1 creates a room without asking for an id and \<open>Math.random()\<close> returns 0,
  whose string in base 36 is \<open>0\<close>: line 96 gives the room the empty id. Alice then
  joins that room on connection 2 under the key \<open>1234\<close>.
\<close>

definition noid_ops :: "op list" where
  "noid_ops =
     [CreateOrRejoinRoom 1 ''0'' None (JNum (Fin 1)) (JNum (Fin 75)),
      JoinRoom 2 (Double 1 (- 1)) [] (Some ''Alice'') (Some ''1234'')]"

definition room_noid :: room where
  "room_noid =
     \<lparr>roomId = [], hostSocketId = Some 1, minNumber = Fin 1, maxNumber = Fin 75,
      drawnNumbers = [],
      players = [(''1234'', \<lparr>name = ''Alice'', secretKey = ''1234'', socketId = Some 2,
                             cardNumbers = Prim JNull\<rparr>)]\<rparr>"

definition state_noid :: state where
  "state_noid =
     \<lparr>rooms = [[] \<mapsto> room_noid],
      sockets = (\<lambda>_. no_data)
        (1 := \<lparr>data_role = Some Host, data_roomId = Some [], data_secretKey = None\<rparr>,
         2 := \<lparr>data_role = Some Player, data_roomId = Some [],
               data_secretKey = Some ''1234''\<rparr>)\<rparr>"

text \<open>
  A second connection joins with Alice's key; the first connection then closes, in
  the room without id at once, in \<open>R1\<close> after it has created a room of its own.
\<close>

definition noid_rebind_ops :: "op list" where
  "noid_rebind_ops =
     [JoinRoom 3 (Double 1 (- 1)) [] (Some ''Bob'') (Some ''1234''), HandleDisconnect 2]"

definition host_rebind_ops :: "op list" where
  "host_rebind_ops =
     [JoinRoom 3 (Double 1 (- 1)) ''R1'' (Some ''Bob'') (Some ''1234''),
      CreateOrRejoinRoom 2 ''0.k3x9q2'' (Some ''R2'') (JNum (Fin 1)) (JNum (Fin 75)),
      HandleDisconnect 2]"

section \<open>Properties\<close>

subsection \<open>Drawing is reserved to the bound host\<close>

text \<open>
  C5: for every existing room, \<open>drawNumber\<close> invoked by a connection that is not the
  room's currently bound host connection fails with \<open>NotHostError\<close>, emits nothing and
  leaves the whole state, and so \<open>drawnNumbers\<close>, as it was. The payload plays no part:
  the check of line 199 comes before the number is looked at.
\<close>

theorem drawNumber_not_host:
  assumes "rooms st rid = Some room"
      and "Some sid \<noteq> hostSocketId room"
  shows "host_drawNumber s2n st sid rid num = (Inl NotHostError, st, [])"
  using assms by (simp add: host_drawNumber_def)

theorem drawNumber_not_host_witness:
  "rooms state_R1 ''R1'' = Some room_R1 \<and> Some 2 \<noteq> hostSocketId room_R1
   \<and> host_drawNumber decimal_s2n state_R1 2 ''R1'' (JNum (Fin 42)) = (Inl NotHostError, state_R1, [])"
proof -
  have r: "rooms state_R1 ''R1'' = Some room_R1"
    by (simp add: state_R1_def)
  have h: "Some 2 \<noteq> hostSocketId room_R1"
    by (simp add: room_R1_def)
  from drawNumber_not_host [OF r h] r h show ?thesis
    by simp
qed

subsection \<open>Creating and reclaiming a room\<close>

lemma inputId_R1: "inputId (Some '' R1 '') = Some ''R1''"
  by (simp add: inputId_def trim_def js_space_def)

lemma decimal_75: "decimal_s2n ''75'' = Fin 75"
  by (simp add: decimal_s2n_def is_digit_def digits_value_def)

lemma decimal_90: "decimal_s2n ''90'' = Fin 90"
  by (simp add: decimal_s2n_def is_digit_def digits_value_def)

lemma decimal_abc: "decimal_s2n ''abc'' = NaN"
  by (simp add: decimal_s2n_def is_digit_def)

lemma run_noid: "run decimal_s2n init noid_ops = state_noid"
  by (simp add: noid_ops_def run_def init_def no_data_def state_noid_def room_noid_def
      host_createRoom_def player_joinRoom_def inputId_def known_room_def slice_def trim_def
      js_space_def js_put_def array_index_def Let_def fun_upd_twist)

text \<open>
  C7, as amended: for every \<open>createOrRejoinRoom\<close> call, if \<open>Number(minNumber)\<close> or
  \<open>Number(maxNumber)\<close>, the numeric coercions that line 55 tests, is not finite, or
  \<open>Number(minNumber) > Number(maxNumber)\<close>, the call fails with \<open>InvalidRangeError\<close> and
  has no effect: the state is returned as it was (no room created, none rebound or
  modified) and nothing is emitted. The condition is not on the payload: \<open>null\<close> and
  \<open>true\<close> are no finite numbers, and as a range they create a room from 0 to 1.
\<close>

theorem createRoom_invalid_range:
  assumes "\<not> isFinite (Number s2n minN) \<or> \<not> isFinite (Number s2n maxN)
           \<or> js_gt (Number s2n minN) (Number s2n maxN)"
  shows "host_createRoom s2n gen st sid rid minN maxN = (Inl InvalidRangeError, st, [])"
  using assms by (auto simp add: host_createRoom_def Let_def)

theorem createRoom_invalid_range_witness:
  "js_gt (Number decimal_s2n (JStr ''75'')) (Number decimal_s2n (JNum (Fin 1)))
   \<and> host_createRoom decimal_s2n ''0.k3x9q2'' state_R1_left 3 (Some ''R1'') (JStr ''75'') (JNum (Fin 1))
       = (Inl InvalidRangeError, state_R1_left, [])"
proof -
  have g: "js_gt (Number decimal_s2n (JStr ''75'')) (Number decimal_s2n (JNum (Fin 1)))"
    by (simp add: decimal_75)
  from createRoom_invalid_range [of decimal_s2n "JStr ''75''" "JNum (Fin 1)"] g show ?thesis
    by blast
qed

theorem createRoom_invalid_range_counterexample:
  "fst (host_createRoom decimal_s2n ''0.k3x9q2'' init 1 (Some ''R1'') JNull (JBool True))
     = Inr \<lparr>ack_rejoin = False,
            ack_room = \<lparr>roomId = ''R1'', hostSocketId = Some 1, minNumber = Fin 0,
                        maxNumber = Fin 1, drawnNumbers = [], players = []\<rparr>\<rparr>
   \<and> rooms init ''R1'' = None
   \<and> rooms (fst (snd (host_createRoom decimal_s2n ''0.k3x9q2'' init 1 (Some ''R1'') JNull
                          (JBool True)))) ''R1''
     = Some \<lparr>roomId = ''R1'', hostSocketId = Some 1, minNumber = Fin 0, maxNumber = Fin 1,
             drawnNumbers = [], players = []\<rparr>"
  by (simp add: init_def host_createRoom_def inputId_def known_room_def trim_def js_space_def
      Let_def)




text \<open>
  C3: for every existing room whose \<open>hostSocketId\<close> is null, a \<open>createOrRejoinRoom\<close> call
  that asks for that room's id with a valid range succeeds: the acknowledgement
  reports \<open>rejoin = true\<close> with the room, the caller's connection is bound as host and
  associated with the room, \<open>minNumber\<close> and \<open>maxNumber\<close> are overwritten with the new
  values, \<open>drawnNumbers\<close> and \<open>players\<close> are as before, no other room changes, and the
  names of the online players are sent to the new host.
\<close>

theorem createRoom_rejoin_hostless:
  assumes "inputId rid = Some i"
      and "rooms st i = Some room"
      and "hostSocketId room = None"
      and "isFinite (Number s2n minN)"
      and "isFinite (Number s2n maxN)"
      and "\<not> js_gt (Number s2n minN) (Number s2n maxN)"
  shows "case host_createRoom s2n gen st sid rid minN maxN of
           (ack, st', emits) \<Rightarrow>
             (case rooms st' i of
                None \<Rightarrow> False
              | Some room' \<Rightarrow>
                  ack = Inr \<lparr>ack_rejoin = True, ack_room = room'\<rparr>
                  \<and> hostSocketId room' = Some sid
                  \<and> minNumber room' = Number s2n minN \<and> maxNumber room' = Number s2n maxN
                  \<and> drawnNumbers room' = drawnNumbers room \<and> players room' = players room
                  \<and> roomId room' = roomId room
                  \<and> rooms st' = (rooms st)(i \<mapsto> room')
                  \<and> data_role (sockets st' sid) = Some Host
                  \<and> data_roomId (sockets st' sid) = Some i
                  \<and> emits = [(ToSocket sid, PlayersUpdate (online_names (players room)))])"
  using assms by (simp add: host_createRoom_def known_room_def Let_def emitPlayersUpdate_def)

theorem createRoom_rejoin_hostless_witness:
  "inputId (Some '' R1 '') = Some ''R1'' \<and> rooms state_R1_left ''R1'' = Some room_R1_left
   \<and> hostSocketId room_R1_left = None
   \<and> fst (host_createRoom decimal_s2n ''0.k3x9q2'' state_R1_left 3 (Some '' R1 '')
             (JNum (Fin 1)) (JStr ''90''))
       = Inr \<lparr>ack_rejoin = True,
              ack_room = \<lparr>roomId = ''R1'', hostSocketId = Some 3, minNumber = Fin 1,
                          maxNumber = Fin 90, drawnNumbers = [Fin 17],
                          players = [(''1234'', alice)]\<rparr>\<rparr>
   \<and> snd (snd (host_createRoom decimal_s2n ''0.k3x9q2'' state_R1_left 3 (Some '' R1 '')
                  (JNum (Fin 1)) (JStr ''90'')))
       = [(ToSocket 3, PlayersUpdate [''Alice''])]"
proof -
  have r: "rooms state_R1_left ''R1'' = Some room_R1_left"
    by (simp add: state_R1_left_def)
  have h: "hostSocketId room_R1_left = None"
    by (simp add: room_R1_left_def)
  have f1: "isFinite (Number decimal_s2n (JNum (Fin 1)))"
    by simp
  have f2: "isFinite (Number decimal_s2n (JStr ''90''))"
    by (simp add: decimal_90)
  have le: "\<not> js_gt (Number decimal_s2n (JNum (Fin 1))) (Number decimal_s2n (JStr ''90''))"
    by (simp add: decimal_90)
  from createRoom_rejoin_hostless [OF inputId_R1 r h f1 f2 le, where gen = "''0.k3x9q2''" and sid = 3]
  have "fst (host_createRoom decimal_s2n ''0.k3x9q2'' state_R1_left 3 (Some '' R1 '')
               (JNum (Fin 1)) (JStr ''90''))
          = Inr \<lparr>ack_rejoin = True,
                 ack_room = \<lparr>roomId = ''R1'', hostSocketId = Some 3, minNumber = Fin 1,
                             maxNumber = Fin 90, drawnNumbers = [Fin 17],
                             players = [(''1234'', alice)]\<rparr>\<rparr>
         \<and> snd (snd (host_createRoom decimal_s2n ''0.k3x9q2'' state_R1_left 3 (Some '' R1 '')
                  (JNum (Fin 1)) (JStr ''90'')))
          = [(ToSocket 3, PlayersUpdate [''Alice''])]"
    by (auto simp add: room_R1_left_def room_R1_def alice_def decimal_90 online_names_def
        split: prod.splits option.splits)
  with r h inputId_R1 show ?thesis
    by simp
qed

subsection \<open>Drawing a number\<close>

lemma decimal_17: "decimal_s2n ''17'' = Fin 17"
  by (simp add: decimal_s2n_def is_digit_def digits_value_def)

lemma rooms_state_new: "rooms state_new ''R1'' = Some room_new"
  by (simp add: state_new_def room_new_def host_createRoom_def init_def inputId_def trim_def
      js_space_def known_room_def Let_def)

lemma count_list_distinct: "distinct xs \<Longrightarrow> x \<in> set xs \<Longrightarrow> count_list xs x = 1"
  by (induction xs) (auto simp add: count_list_0_iff)

text \<open>
  C9: \<open>drawNumber\<close> validates \<open>Number(number)\<close>, not the raw payload. Called by the bound
  host on an existing room, it succeeds exactly when the coerced value is finite; the
  coerced value is then what is appended to \<open>drawnNumbers\<close> (if not yet there) and
  what is broadcast with the history; otherwise the answer is \<open>InvalidNumberError\<close>
  and nothing changes. Whoever calls, \<open>InvalidNumberError\<close> is the answer only when
  the coerced value is NaN or infinite. \<open>null\<close> coerces to 0, \<open>true\<close> and \<open>false\<close> to 1
  and 0, a number to itself, a string to what the runtime reads in it (17 for
  \<open>"17"\<close>), and \<open>undefined\<close> to NaN.
\<close>

theorem drawNumber_coerces:
  "(rooms st rid = Some room \<and> hostSocketId room = Some sid \<longrightarrow>
      (case host_drawNumber s2n st sid rid num of
         (ack, st', emits) \<Rightarrow>
           (if isFinite (Number s2n num)
            then ack = Inr ()
                 \<and> drawn st' rid =
                     (if Number s2n num \<in> set (drawnNumbers room) then drawnNumbers room
                      else drawnNumbers room @ [Number s2n num])
                 \<and> emits = [(ToRoom rid, NumberDrawn (Number s2n num) (drawn st' rid))]
            else ack = Inl InvalidNumberError \<and> st' = st \<and> emits = [])))
   \<and> (fst (host_drawNumber s2n st sid rid num) = Inl InvalidNumberError
        \<longrightarrow> \<not> isFinite (Number s2n num))
   \<and> Number s2n JNull = Fin 0
   \<and> Number s2n (JBool True) = Fin 1
   \<and> Number s2n (JBool False) = Fin 0
   \<and> Number s2n (JNum n) = n
   \<and> Number s2n (JStr s) = s2n s
   \<and> Number s2n JUndefined = NaN"
  by (auto simp add: host_drawNumber_def Let_def drawn_def split: option.splits if_splits)

theorem drawNumber_coerces_witness:
  "rooms state_R1 ''R1'' = Some room_R1 \<and> hostSocketId room_R1 = Some 1
   \<and> fst (host_drawNumber decimal_s2n state_R1 1 ''R1'' JNull) = Inr ()
   \<and> snd (snd (host_drawNumber decimal_s2n state_R1 1 ''R1'' JNull))
       = [(ToRoom ''R1'', NumberDrawn (Fin 0) [Fin 17, Fin 0])]
   \<and> fst (host_drawNumber decimal_s2n state_R1 1 ''R1'' (JStr ''abc'')) = Inl InvalidNumberError
   \<and> \<not> isFinite (Number decimal_s2n (JStr ''abc''))
   \<and> Number decimal_s2n (JStr ''17'') = Fin 17"
proof -
  have r: "rooms state_R1 ''R1'' = Some room_R1"
    by (simp add: state_R1_def)
  have h: "hostSocketId room_R1 = Some 1"
    by (simp add: room_R1_def)
  note null = drawNumber_coerces [where st = state_R1 and rid = "''R1''" and room = room_R1
      and sid = 1 and ?s2n.0 = decimal_s2n and num = JNull and s = "''17''"]
  note abc = drawNumber_coerces [where st = state_R1 and rid = "''R1''" and room = room_R1
      and sid = 1 and ?s2n.0 = decimal_s2n and num = "JStr ''abc''"]
  from null r h
  have c1: "fst (host_drawNumber decimal_s2n state_R1 1 ''R1'' JNull) = Inr ()
   \<and> snd (snd (host_drawNumber decimal_s2n state_R1 1 ''R1'' JNull))
       = [(ToRoom ''R1'', NumberDrawn (Fin 0) [Fin 17, Fin 0])]
   \<and> Number decimal_s2n (JStr ''17'') = Fin 17"
    by (auto simp add: room_R1_def decimal_17 split: prod.splits)
  from abc [THEN conjunct1] r h
  have c2: "fst (host_drawNumber decimal_s2n state_R1 1 ''R1'' (JStr ''abc'')) = Inl InvalidNumberError"
    by (auto simp add: decimal_abc split: prod.splits)
  from abc [THEN conjunct2, THEN conjunct1] c2
  have c3: "\<not> isFinite (Number decimal_s2n (JStr ''abc''))"
    by blast
  from r h c1 c2 c3 show ?thesis
    by simp
qed

text \<open>
  C2: for every room with a bound host and a duplicate-free history, when the host
  calls \<open>drawNumber\<close> twice with the same number (a payload whose coercion is finite),
  both calls acknowledge success, the number is in \<open>drawnNumbers\<close> exactly once after
  the first call, the second call leaves \<open>drawnNumbers\<close> as the first left it, and each
  call broadcasts the number with the full history to the room. On a room with an
  empty history, drawing 17, then 17, then 42 ends with \<open>drawnNumbers = [17, 42]\<close>.
\<close>

theorem drawNumber_twice:
  assumes "rooms st rid = Some room"
      and "hostSocketId room = Some sid"
      and "isFinite (Number s2n num)"
      and "distinct (drawnNumbers room)"
  shows "(case host_drawNumber s2n st sid rid num of
           (ack1, st1, emits1) \<Rightarrow>
             (case host_drawNumber s2n st1 sid rid num of
                (ack2, st2, emits2) \<Rightarrow>
                  ack1 = Inr () \<and> ack2 = Inr ()
                  \<and> count_list (drawn st1 rid) (Number s2n num) = 1
                  \<and> drawn st2 rid = drawn st1 rid
                  \<and> emits1 = [(ToRoom rid, NumberDrawn (Number s2n num) (drawn st1 rid))]
                  \<and> emits2 = [(ToRoom rid, NumberDrawn (Number s2n num) (drawn st2 rid))]))
         \<and> (drawnNumbers room = [] \<longrightarrow>
              drawn (run s2n st [DrawNumber sid rid (JNum (Fin 17)), DrawNumber sid rid (JNum (Fin 17)),
                                 DrawNumber sid rid (JNum (Fin 42))]) rid
                = [Fin 17, Fin 42])"
  using assms
  by (auto simp add: host_drawNumber_def Let_def drawn_def run_def count_list_0_iff
      count_list_distinct)

theorem drawNumber_twice_witness:
  "rooms state_new ''R1'' = Some room_new \<and> hostSocketId room_new = Some 1
   \<and> isFinite (Number decimal_s2n (JStr ''17'')) \<and> distinct (drawnNumbers room_new)
   \<and> drawnNumbers room_new = []
   \<and> fst (host_drawNumber decimal_s2n state_new 1 ''R1'' (JStr ''17'')) = Inr ()
   \<and> count_list
        (drawn (fst (snd (host_drawNumber decimal_s2n state_new 1 ''R1'' (JStr ''17'')))) ''R1'')
        (Fin 17) = 1
   \<and> drawn (run decimal_s2n state_new
               [DrawNumber 1 ''R1'' (JNum (Fin 17)), DrawNumber 1 ''R1'' (JNum (Fin 17)),
                DrawNumber 1 ''R1'' (JNum (Fin 42))]) ''R1''
       = [Fin 17, Fin 42]"
proof -
  have h: "hostSocketId room_new = Some 1"
    by (simp add: room_new_def)
  have f: "isFinite (Number decimal_s2n (JStr ''17''))"
    by (simp add: decimal_17)
  have d: "distinct (drawnNumbers room_new)"
    by (simp add: room_new_def)
  have e: "drawnNumbers room_new = []"
    by (simp add: room_new_def)
  from drawNumber_twice [OF rooms_state_new h f d] e
  have "fst (host_drawNumber decimal_s2n state_new 1 ''R1'' (JStr ''17'')) = Inr ()
   \<and> count_list
        (drawn (fst (snd (host_drawNumber decimal_s2n state_new 1 ''R1'' (JStr ''17'')))) ''R1'')
        (Fin 17) = 1
   \<and> drawn (run decimal_s2n state_new
               [DrawNumber 1 ''R1'' (JNum (Fin 17)), DrawNumber 1 ''R1'' (JNum (Fin 17)),
                DrawNumber 1 ''R1'' (JNum (Fin 42))]) ''R1''
       = [Fin 17, Fin 42]"
    by (simp add: case_prod_beta decimal_17)
  with rooms_state_new h f d e show ?thesis
    by simp
qed

subsection \<open>The players object\<close>

lemma keys_replace_value: "map fst (replace_value k v ps) = map fst ps"
  by (induction ps) auto

lemma map_of_replace_value:
  "map_of ps k = Some v0 \<Longrightarrow> map_of (replace_value k v ps) = (map_of ps)(k \<mapsto> v)"
  by (induction ps) (auto simp add: fun_eq_iff)

lemma map_of_insert_index_at:
  "map_of ps k = None \<Longrightarrow> map_of (insert_index i k v ps) x = ((map_of ps)(k \<mapsto> v)) x"
  by (induction ps) (auto split: option.splits if_splits)

lemma map_of_insert_index:
  "map_of ps k = None \<Longrightarrow> map_of (insert_index i k v ps) = (map_of ps)(k \<mapsto> v)"
  by (rule ext) (rule map_of_insert_index_at)

lemma map_of_snoc:
  "map_of ps k = None \<Longrightarrow> map_of (ps @ [(k, v)]) = (map_of ps)(k \<mapsto> v)"
  by (rule ext) (auto simp add: map_add_def split: option.splits)

lemma map_of_js_put: "map_of (js_put k v ps) = (map_of ps)(k \<mapsto> v)"
  by (cases "map_of ps k")
     (simp_all add: js_put_def map_of_replace_value map_of_insert_index map_of_snoc
        del: map_of_append split: option.splits)

lemma js_put_present: "map_of ps k = Some v0 \<Longrightarrow> js_put k v ps = replace_value k v ps"
  by (simp add: js_put_def)

lemma set_insert_index: "set (insert_index i k v ps) = insert (k, v) (set ps)"
  by (induction ps) (auto split: option.splits if_splits)

lemma length_insert_index: "length (insert_index i k v ps) = Suc (length ps)"
  by (induction ps) (auto split: option.splits)

lemma js_put_absent:
  "map_of ps k = None \<Longrightarrow>
     set (js_put k v ps) = insert (k, v) (set ps) \<and> length (js_put k v ps) = Suc (length ps)"
  by (auto simp add: js_put_def set_insert_index length_insert_index split: option.splits)

text \<open>With distinct keys, taking a player offline removes just that player from the names.\<close>

lemma online_replace_offline:
  "distinct (map fst ps) \<Longrightarrow> socketId v = None \<Longrightarrow>
     online_names (replace_value k v ps) = online_names (filter (\<lambda>e. fst e \<noteq> k) ps)"
proof (induction ps)
  case Nil
  then show ?case by (simp add: online_names_def)
next
  case (Cons e ps)
  obtain k' v' where e: "e = (k', v')" by (cases e)
  show ?case
  proof (cases "k' = k")
    case True
    with Cons.prems e have "k \<notin> fst ` set ps" by auto
    then have "filter (\<lambda>e. fst e \<noteq> k) ps = ps"
      by (auto simp add: filter_id_conv)
    with True e Cons.prems show ?thesis
      by (simp add: online_names_def)
  next
    case False
    with Cons e show ?thesis
      by (simp add: online_names_def)
  qed
qed

subsection \<open>Closing a connection\<close>





subsection \<open>The generated key\<close>

declare toString.simps [simp del]

lemma trim_Nil: "trim [] = []"
  by (simp add: trim_def)

lemma toString_4:
  assumes "1000 \<le> n" and "n < 10000"
  shows "toString n = [digit_char (n div 1000), digit_char (n div 100 mod 10),
                       digit_char (n div 10 mod 10), digit_char (n mod 10)]"
proof -
  have e1: "n div 10 div 10 = n div 100" and e2: "n div 100 div 10 = n div 1000"
    by (simp_all add: div_mult2_eq [symmetric])
  from assms have g1: "\<not> n div 10 < 10" and g2: "\<not> n div 100 < 10" and g3: "n div 1000 < 10"
    by (simp_all add: less_eq_div_iff_mult_less_eq div_less_iff_less_mult not_less)
  have a: "toString n = toString (n div 10) @ [digit_char (n mod 10)]"
    using assms by (simp add: toString.simps [of n])
  have b: "toString (n div 10) = toString (n div 100) @ [digit_char (n div 10 mod 10)]"
    using g1 e1 by (simp add: toString.simps [of "n div 10"])
  have c: "toString (n div 100) = toString (n div 1000) @ [digit_char (n div 100 mod 10)]"
    using g2 e2 by (simp add: toString.simps [of "n div 100"])
  have d: "toString (n div 1000) = [digit_char (n div 1000)]"
    using g3 by (simp add: toString.simps [of "n div 1000"])
  from a b c d show ?thesis by simp
qed

lemma is_digit_digit_char: "d < 10 \<Longrightarrow> is_digit (digit_char d)"
proof -
  assume "d < 10"
  then have "d \<in> {0, 1, 2, 3, 4, 5, 6, 7, 8, 9}"
    by auto
  then show ?thesis
    by (auto simp add: is_digit_def digit_char_def)
qed

text \<open>
  Rounding is to a nearest point of the grid of the result's exponent. A value below
  \<open>2^14\<close> with more than 53 significant bits is rounded on a grid of step at most
  \<open>2^-39\<close>, so rounding never crosses a multiple of \<open>2^-39\<close>; this bounds the product
  by the double before 9000 and the sum by the double before 10000.
\<close>

lemma bits_upper: "n < 2 ^ bits n"
proof (induction n rule: bits.induct)
  case (1 n)
  show ?case
  proof (cases "n = 0")
    case True
    then show ?thesis by (simp add: bits.simps)
  next
    case False
    with 1 have "n div 2 < 2 ^ bits (n div 2)" by simp
    then have "n < 2 * 2 ^ bits (n div 2)" by linarith
    with False show ?thesis by (simp add: bits.simps [of n])
  qed
qed

lemma bits_lower: "n \<noteq> 0 \<Longrightarrow> 2 ^ (bits n - 1) \<le> n"
proof (induction n rule: bits.induct)
  case (1 n)
  show ?case
  proof (cases "n div 2 = 0")
    case True
    with 1 show ?thesis by (simp add: bits.simps [of n] bits.simps [of 0])
  next
    case False
    with 1 have ih: "2 ^ (bits (n div 2) - 1) \<le> n div 2" by simp
    from False have "bits (n div 2) \<noteq> 0" by (simp add: bits.simps [of "n div 2"])
    then have "bits n - 1 = Suc (bits (n div 2) - 1)"
      using 1 by (simp add: bits.simps [of n])
    with ih show ?thesis by simp
  qed
qed

lemma rne_0: "rne m 0 = m"
  by (simp add: rne_def)

lemma rne_cases:
  "(rne m k = m div 2 ^ k \<and> 2 * (m mod 2 ^ k) \<le> 2 ^ k)
   \<or> (rne m k = m div 2 ^ k + 1 \<and> 2 ^ k \<le> 2 * (m mod 2 ^ k))"
  by (auto simp add: rne_def Let_def)

lemma rne_nearest: "\<bar>int (rne m k * 2 ^ k) - int m\<bar> \<le> \<bar>int (n * 2 ^ k) - int m\<bar>"
proof -
  define K :: nat where "K = 2 ^ k"
  define q where "q = m div K"
  define r where "r = m mod K"
  have K: "0 < K" by (simp add: K_def)
  have m: "m = q * K + r" by (simp add: q_def r_def)
  have r: "r < K" using K by (simp add: r_def)
  have far: "(n * K \<le> q * K) \<or> (q * K + K \<le> n * K)"
  proof (cases "n \<le> q")
    case True
    then show ?thesis by simp
  next
    case False
    then have "Suc q \<le> n" by simp
    then have "Suc q * K \<le> n * K" by (rule mult_le_mono1)
    then show ?thesis by simp
  qed
  from rne_cases [of m k]
  have near: "(rne m k * K = q * K \<and> 2 * r \<le> K) \<or> (rne m k * K = q * K + K \<and> K \<le> 2 * r)"
    by (auto simp add: K_def q_def r_def)
  define a where "a = n * K"
  define b where "b = q * K"
  define c where "c = rne m k * K"
  from m have m': "m = b + r" by (simp add: b_def)
  from far have far': "a \<le> b \<or> b + K \<le> a" by (simp add: a_def b_def)
  from near have near': "(c = b \<and> 2 * r \<le> K) \<or> (c = b + K \<and> K \<le> 2 * r)"
    by (simp add: b_def c_def)
  from m' r far' near' have "\<bar>int c - int m\<bar> \<le> \<bar>int a - int m\<bar>"
    by arith
  then show ?thesis
    by (simp add: a_def c_def K_def)
qed

lemma p2_add: "(2::rat) powi a * 2 powi b = 2 powi (a + b)"
  by (simp add: power_int_add)

lemma p2_mono: "a \<le> b \<Longrightarrow> (2::rat) powi a \<le> 2 powi b"
  by (rule power_int_increasing) simp_all

lemma p2_less_imp: "(2::rat) powi a < 2 powi b \<Longrightarrow> a < b"
  using p2_mono [of b a] by (cases "a < b") auto

lemma dval_shift: "dval (Double (n * 2 ^ k) e) = dval (Double n (e + int k))"
  by (simp add: power_int_add)

lemma round53_k:
  assumes "- 1074 \<le> e"
  shows "round53 m e = Double (rne m (bits m - 53)) (e + int (bits m - 53))"
proof -
  from assms have "nat (max (int (bits m) - 53) (- 1074 - e)) = bits m - 53"
    by (simp add: max_def, arith)
  then show ?thesis by (simp add: round53_def Let_def)
qed

lemma round53_nearest:
  assumes "- 1074 \<le> e"
  shows "\<bar>dval (round53 m e) - dval (Double m e)\<bar>
           \<le> \<bar>dval (Double n (e + int (bits m - 53))) - dval (Double m e)\<bar>"
proof -
  define k where "k = bits m - 53"
  have pos: "0 < (2::rat) powi e" by simp
  have a: "dval (round53 m e) - dval (Double m e)
             = of_int (int (rne m k * 2 ^ k) - int m) * 2 powi e"
    using assms by (simp add: round53_k k_def power_int_add algebra_simps)
  have b: "dval (Double n (e + int k)) - dval (Double m e)
             = of_int (int (n * 2 ^ k) - int m) * 2 powi e"
    by (simp add: power_int_add algebra_simps)
  have "\<bar>(of_int (int (rne m k * 2 ^ k) - int m) :: rat)\<bar>
          \<le> \<bar>of_int (int (n * 2 ^ k) - int m)\<bar>"
    using rne_nearest [of m k n] by (simp only: of_int_abs [symmetric] of_int_le_iff)
  then have "\<bar>(of_int (int (rne m k * 2 ^ k) - int m) :: rat)\<bar> * 2 powi e
          \<le> \<bar>of_int (int (n * 2 ^ k) - int m)\<bar> * 2 powi e"
    using pos by (simp add: mult_right_mono)
  then show ?thesis
    unfolding a b k_def [symmetric] using pos by (simp add: abs_mult)
qed

lemma on_grid:
  assumes "f \<le> c"
  shows "of_nat N * (2::rat) powi c = dval (Double (N * 2 ^ nat (c - f)) f)"
proof -
  have "(2::rat) powi c = 2 powi (c - f) * 2 powi f"
    by (simp add: p2_add)
  also have "(2::rat) powi (c - f) = 2 ^ nat (c - f)"
    using assms by (simp add: power_int_def)
  finally show ?thesis by simp
qed

lemma p2_13: "(2::rat) powi 13 = 8192" and p2_14: "(2::rat) powi 14 = 16384"
  and p2_m39: "(2::rat) powi (- 39) = 1 / 2 ^ 39" and p2_m40: "(2::rat) powi (- 40) = 1 / 2 ^ 40"
  and p2_m54: "(2::rat) powi (- 54) = 1 / 2 ^ 54" and p2_53: "(2::rat) powi 53 = 2 ^ 53"
  and p2_39: "(2::rat) powi 39 = 2 ^ 39"
  by (simp_all add: power_int_def power_one_over)

lemma unit_below:
  assumes "m < 2 ^ 53" and "of_nat m * (2::rat) powi e < 1"
  shows "of_nat m * (2::rat) powi e \<le> 1 - 1 / 2 ^ 53"
proof (cases "- 53 \<le> e")
  case True
  define N where "N = m * 2 ^ nat (e + 53)"
  have "of_nat m * (2::rat) powi e * 2 powi 53 = of_nat m * 2 powi (e + 53)"
    by (simp add: p2_add [symmetric])
  also have "\<dots> = of_nat N"
    using True by (simp add: N_def power_int_def)
  finally have eq: "of_nat m * (2::rat) powi e * 2 ^ 53 = of_nat N"
    by (simp add: p2_53)
  from assms(2) have "of_nat m * (2::rat) powi e * 2 ^ 53 < 1 * 2 ^ 53"
    by (simp only: mult_less_cancel_right_pos zero_less_power zero_less_numeral)
  with eq have "(of_nat N :: rat) < of_nat (2 ^ 53)" by simp
  then have "N < 2 ^ 53" by (simp only: of_nat_less_iff)
  then have "N + 1 \<le> 2 ^ 53" by simp
  then have "(of_nat (N + 1) :: rat) \<le> of_nat (2 ^ 53)" by (simp only: of_nat_le_iff)
  then have "(of_nat N :: rat) \<le> 2 ^ 53 - 1" by simp
  with eq have "of_nat m * (2::rat) powi e * 2 ^ 53 \<le> (1 - 1 / 2 ^ 53) * 2 ^ 53"
    by (simp add: algebra_simps)
  then show ?thesis
    by (simp only: mult_le_cancel_right_pos zero_less_power zero_less_numeral)
next
  case False
  then have "e \<le> - 54" by simp
  then have le: "(2::rat) powi e \<le> 2 powi (- 54)" by (rule p2_mono)
  have "of_nat m * (2::rat) powi e \<le> of_nat m * 2 powi (- 54)"
    by (rule mult_left_mono [OF le]) simp
  also have "\<dots> = of_nat m * (1 / 2 ^ 54)"
    by (simp only: p2_m54)
  also from assms(1) have "(of_nat m :: rat) < of_nat (2 ^ 53)"
    by (simp only: of_nat_less_iff)
  then have "of_nat m * (1 / 2 ^ 54 :: rat) \<le> 2 ^ 53 * (1 / 2 ^ 54)"
    by simp
  finally show ?thesis by simp
qed

lemma dfloor_val: "dfloor d = nat \<lfloor>dval d\<rfloor>"
proof (cases d)
  case (Double m e)
  show ?thesis
  proof (cases "0 \<le> e")
    case True
    then have "dval d = of_nat (m * 2 ^ nat e)"
      using Double by (simp add: power_int_def)
    with True Double show ?thesis by (simp del: of_nat_mult of_nat_power)
  next
    case False
    then have "dval d = of_nat m / of_nat (2 ^ nat (- e))"
      using Double by (simp add: power_int_def field_simps)
    then have "\<lfloor>dval d\<rfloor> = int (m div 2 ^ nat (- e))"
      by (simp only: floor_divide_of_nat_eq)
    with False Double show ?thesis by simp
  qed
qed

lemma bits_0: "bits 0 = 0"
  by (simp add: bits.simps)

lemma nat_pow_le_rat: "(2::nat) ^ j \<le> S \<Longrightarrow> (2::rat) powi (int j) \<le> of_nat S"
proof -
  assume "(2::nat) ^ j \<le> S"
  then have "(of_nat (2 ^ j) :: rat) \<le> of_nat S" by (simp only: of_nat_le_iff)
  then show ?thesis by (simp only: power_int_of_nat of_nat_power of_nat_numeral)
qed

lemma nat_less_pow_rat: "S < (2::nat) ^ j \<Longrightarrow> (of_nat S :: rat) < 2 powi (int j)"
proof -
  assume "S < (2::nat) ^ j"
  then have "(of_nat S :: rat) < of_nat (2 ^ j)" by (simp only: of_nat_less_iff)
  then show ?thesis by (simp only: power_int_of_nat of_nat_power of_nat_numeral)
qed

lemma wide_grid:
  assumes k: "0 < bits S - 53" and "dval (Double S g) < 2 powi 14"
  shows "g + int (bits S - 53) \<le> - 39"
proof -
  define k where "k = bits S - 53"
  from assms(1) have S0: "S \<noteq> 0" by (cases "S = 0") (simp_all add: bits_0)
  from assms(1) have b: "bits S - 1 = 52 + k" unfolding k_def by arith
  from bits_lower [OF S0] have "2 ^ (52 + k) \<le> S" unfolding b .
  then have "(2::rat) powi (int (52 + k)) \<le> of_nat S" by (rule nat_pow_le_rat)
  then have "(2::rat) powi (int (52 + k)) * 2 powi g \<le> of_nat S * 2 powi g"
    by (rule mult_right_mono) simp
  then have "(2::rat) powi (int (52 + k) + g) \<le> dval (Double S g)"
    by (simp only: p2_add dval.simps)
  from this assms(2) have "(2::rat) powi (int (52 + k) + g) < 2 powi 14"
    by (rule le_less_trans)
  then have "int (52 + k) + g < 14" by (rule p2_less_imp)
  then show ?thesis unfolding k_def by simp
qed

lemma scale39: "- 39 \<le> e \<Longrightarrow> dval (Double M e) * 2 ^ 39 = of_nat (M * 2 ^ nat (e + 39))"
proof -
  assume e: "- 39 \<le> e"
  have "dval (Double M e) * 2 powi 39 = of_nat M * 2 powi (e + 39)"
    by (simp only: dval.simps p2_add mult.assoc)
  also from e have "(2::rat) powi (e + 39) = 2 powi (int (nat (e + 39)))"
    by simp
  also have "of_nat M * (2::rat) powi (int (nat (e + 39))) = of_nat (M * 2 ^ nat (e + 39))"
    by (simp only: power_int_of_nat of_nat_mult of_nat_power of_nat_numeral)
  finally show ?thesis by (simp only: p2_39)
qed

lemma below_grid:
  assumes "- 39 \<le> e" and "dval (Double M e) < of_nat c"
  shows "dval (Double M e) \<le> of_nat c - 1 / 2 ^ 39"
proof -
  define N where "N = M * 2 ^ nat (e + 39)"
  have eq: "dval (Double M e) * 2 ^ 39 = of_nat N"
    unfolding N_def by (rule scale39 [OF assms(1)])
  from assms(2) have "dval (Double M e) * 2 ^ 39 < of_nat c * 2 ^ 39"
    by (simp only: mult_less_cancel_right_pos zero_less_power zero_less_numeral)
  then have "(of_nat N :: rat) < of_nat (c * 2 ^ 39)"
    by (simp only: eq of_nat_mult of_nat_power of_nat_numeral)
  then have "N < c * 2 ^ 39" by (simp only: of_nat_less_iff)
  then have "N + 1 \<le> c * 2 ^ 39" by simp
  then have "(of_nat (N + 1) :: rat) \<le> of_nat (c * 2 ^ 39)" by (simp only: of_nat_le_iff)
  then have "(of_nat N :: rat) + 1 \<le> of_nat c * 2 ^ 39"
    by (simp only: of_nat_add of_nat_1 of_nat_mult of_nat_power of_nat_numeral)
  then have "dval (Double M e) * 2 ^ 39 \<le> (of_nat c - 1 / 2 ^ 39) * 2 ^ 39"
    unfolding eq by (simp add: algebra_simps)
  then show ?thesis
    by (simp only: mult_le_cancel_right_pos zero_less_power zero_less_numeral)
qed

lemma above_grid:
  assumes "- 39 \<le> e" and "of_nat c - 1 / 2 ^ 39 < dval (Double M e)"
  shows "of_nat c \<le> dval (Double M e)"
proof (rule ccontr)
  assume "\<not> of_nat c \<le> dval (Double M e)"
  then have "dval (Double M e) < of_nat c" by simp
  from below_grid [OF assms(1) this] assms(2) show False by simp
qed

lemma small_exp:
  assumes "e \<le> - 40" and "M < 2 ^ 53"
  shows "dval (Double M e) \<le> 8192"
proof -
  from assms(1) have le: "(2::rat) powi e \<le> 2 powi (- 40)" by (rule p2_mono)
  have "dval (Double M e) \<le> of_nat M * 2 powi (- 40)"
    unfolding dval.simps by (rule mult_left_mono [OF le]) simp
  also have "\<dots> = of_nat M * (1 / 2 ^ 40)" by (simp only: p2_m40)
  also from assms(2) have "(of_nat M :: rat) < of_nat (2 ^ 53)" by (simp only: of_nat_less_iff)
  then have "of_nat M * (1 / 2 ^ 40 :: rat) \<le> 2 ^ 53 * (1 / 2 ^ 40)" by simp
  finally show ?thesis by simp
qed

lemma narrow_bits: "bits M - 53 = 0 \<Longrightarrow> M < 2 ^ 53"
proof -
  assume "bits M - 53 = 0"
  then have "bits M \<le> 53" by simp
  then have "(2::nat) ^ bits M \<le> 2 ^ 53" by (rule power_increasing) simp
  with bits_upper [of M] show ?thesis by (rule less_le_trans)
qed

lemma grid_point:
  assumes "f \<le> c"
  shows "\<exists>n. dval (Double n f) = of_nat N * 2 powi c"
  using on_grid [OF assms, of N] by metis

lemma narrow_exact:
  assumes "bits S - 53 = 0" and "- 1074 \<le> g"
  shows "round53 S g = Double S g"
  using assms by (simp add: round53_k rne_0)

lemma round_grid:
  assumes e: "- 1074 \<le> e" and X14: "dval (Double M e) < 2 powi 14"
  shows "(dval (Double M e) \<le> of_nat N * 2 powi (- 39)
            \<longrightarrow> dval (round53 M e) \<le> of_nat N * 2 powi (- 39))
       \<and> (of_nat N * 2 powi (- 39) \<le> dval (Double M e)
            \<longrightarrow> of_nat N * 2 powi (- 39) \<le> dval (round53 M e))"
proof (cases "bits M - 53 = 0")
  case True
  from narrow_exact [OF True e] show ?thesis by (simp only: simp_thms)
next
  case False
  then have kpos: "0 < bits M - 53" by simp
  from wide_grid [OF kpos X14] have f39: "e + int (bits M - 53) \<le> - 39" .
  from grid_point [OF f39, of N] obtain n where
    n: "dval (Double n (e + int (bits M - 53))) = of_nat N * 2 powi (- 39)" by blast
  from round53_nearest [OF e, of M n]
  have "\<bar>dval (round53 M e) - dval (Double M e)\<bar>
          \<le> \<bar>of_nat N * 2 powi (- 39) - dval (Double M e)\<bar>"
    unfolding n .
  then show ?thesis by linarith
qed

lemma dmul_9000: "dmul (Double m e) (Double 9000 0) = round53 (m * 9000) e"
  by simp

lemma dval_mul_9000: "dval (Double (m * 9000) e) = 9000 * dval (Double m e)"
  by simp

lemma round53_exp:
  assumes "- 1074 \<le> e"
  shows "\<exists>P f. round53 M e = Double P f \<and> - 1074 \<le> f \<and> f = e + int (bits M - 53)"
  using assms by (simp add: round53_k)

lemma grid_9000: "of_nat (9000 * 2 ^ 39 - 1) * (2::rat) powi (- 39) = 9000 - 1 / 2 ^ 39"
  and grid_9000': "of_nat (9000 * 2 ^ 39) * (2::rat) powi (- 39) = 9000"
  and grid_10000: "of_nat (10000 * 2 ^ 39 - 1) * (2::rat) powi (- 39) = 10000 - 1 / 2 ^ 39"
  and grid_1000: "of_nat (1000 * 2 ^ 39) * (2::rat) powi (- 39) = 1000"
  by (simp_all add: p2_m39)

lemma product_bound:
  assumes m: "m < 2 ^ 53" and e: "- 1074 \<le> e" and x: "dval (Double m e) < 1"
  shows "\<exists>P f. dmul (Double m e) (Double 9000 0) = Double P f \<and> - 1074 \<le> f
           \<and> dval (Double P f) \<le> 9000 - 1 / 2 ^ 39"
proof -
  define M where "M = m * 9000"
  define X where "X = dval (Double M e)"
  have X: "X = 9000 * dval (Double m e)"
    unfolding X_def M_def by (rule dval_mul_9000)
  from x X have X9: "X < 9000" by simp
  from unit_below [OF m] x have "dval (Double m e) \<le> 1 - 1 / 2 ^ 53" by simp
  with X have Xu: "X \<le> 9000 - 9000 / 2 ^ 53" by simp
  from X9 have X14: "dval (Double M e) < 2 powi 14"
    unfolding X_def [symmetric] p2_14 by simp
  from round53_exp [OF e, of M] obtain P f where
    res: "round53 M e = Double P f" and f: "- 1074 \<le> f" and fk: "f = e + int (bits M - 53)"
    by blast
  define v where "v = dval (Double P f)"
  note grid = round_grid [OF e X14, unfolded res X_def [symmetric] v_def [symmetric]]
  from grid [of "9000 * 2 ^ 39"] X9 have v9: "v \<le> 9000"
    unfolding grid_9000' by simp
  have "v \<le> 9000 - 1 / 2 ^ 39"
  proof (cases "X \<le> 9000 - 1 / 2 ^ 39")
    case True
    with grid [of "9000 * 2 ^ 39 - 1"] show ?thesis
      unfolding grid_9000 by simp
  next
    case False
    then have XD: "9000 - 1 / 2 ^ 39 < X" by simp
    have f39: "- 39 \<le> f"
    proof (cases "bits M - 53 = 0")
      case True
      show ?thesis
      proof (rule ccontr)
        assume "\<not> - 39 \<le> f"
        with fk True have "e \<le> - 40" by simp
        from small_exp [OF this narrow_bits [OF True]] have "X \<le> 8192"
          unfolding X_def .
        with XD show False by simp
      qed
    next
      case False
      then have "bits M = 53 + (bits M - 53)" by simp
      with bits_upper [of M] have "M < 2 ^ (53 + (bits M - 53))" by simp
      then have "(of_nat M :: rat) < 2 powi (int (53 + (bits M - 53)))"
        by (rule nat_less_pow_rat)
      then have "of_nat M * (2::rat) powi e < 2 powi (int (53 + (bits M - 53))) * 2 powi e"
        by (simp only: mult_less_cancel_right_pos zero_less_power_int zero_less_numeral)
      then have "X < 2 powi (int (53 + (bits M - 53)) + e)"
        unfolding X_def dval.simps p2_add .
      moreover from XD have "(2::rat) powi 13 < X" unfolding p2_13 by simp
      ultimately have "(2::rat) powi 13 < 2 powi (int (53 + (bits M - 53)) + e)"
        by (rule less_trans [rotated])
      then have "13 < int (53 + (bits M - 53)) + e" by (rule p2_less_imp)
      with fk show ?thesis by simp
    qed
    show ?thesis
    proof (rule ccontr)
      assume "\<not> v \<le> 9000 - 1 / 2 ^ 39"
      then have "of_nat 9000 - 1 / 2 ^ 39 < dval (Double P f)"
        unfolding v_def by simp
      from above_grid [OF f39 this] have "9000 \<le> v" unfolding v_def by simp
      with v9 have v: "v = 9000" by simp
      have fle: "f \<le> - 39"
      proof (cases "bits M - 53 = 0")
        case True
        from narrow_exact [OF True e] res have "v = X" unfolding v_def X_def by simp
        with v X9 show ?thesis by simp
      next
        case False
        then have "0 < bits M - 53" by simp
        from wide_grid [OF this X14] fk show ?thesis by simp
      qed
      from grid_point [OF fle, of "9000 * 2 ^ 39 - 1"] obtain n where
        "dval (Double n f) = 9000 - 1 / 2 ^ 39" unfolding grid_9000 by blast
      with round53_nearest [OF e, of M n] fk res
      have "\<bar>v - X\<bar> \<le> \<bar>(9000 - 1 / 2 ^ 39) - X\<bar>"
        unfolding v_def X_def by simp
      with v XD X9 have "9000 - X \<le> X - (9000 - 1 / 2 ^ 39)" by linarith
      with Xu show False by simp
    qed
  qed
  with res f show ?thesis
    unfolding v_def M_def dmul_9000 [symmetric] by blast
qed

lemma pow_nat_powi: "0 \<le> a \<Longrightarrow> (2::rat) ^ nat a = 2 powi a"
  by (simp add: power_int_def)

lemma dval_align:
  assumes "g \<le> e"
  shows "dval (Double (m * 2 ^ nat (e - g)) g) = dval (Double m e)"
proof -
  from assms have "(2::rat) ^ nat (e - g) = 2 powi (e - g)" by (simp add: pow_nat_powi)
  then have "dval (Double (m * 2 ^ nat (e - g)) g) = of_nat m * (2 powi (e - g) * 2 powi g)"
    by (simp add: mult.assoc)
  also have "\<dots> = of_nat m * 2 powi e" by (simp only: p2_add) simp
  finally show ?thesis by simp
qed

lemma dval_plus: "dval (Double (a + b) g) = dval (Double a g) + dval (Double b g)"
  by (simp add: algebra_simps)

lemma dadd_val:
  "\<exists>S g. dadd (Double m1 e1) (Double m2 e2) = round53 S g \<and> g = min e1 e2
         \<and> dval (Double S g) = dval (Double m1 e1) + dval (Double m2 e2)"
proof -
  define g where "g = min e1 e2"
  define S where "S = m1 * 2 ^ nat (e1 - g) + m2 * 2 ^ nat (e2 - g)"
  have "g \<le> e1" "g \<le> e2" by (simp_all add: g_def)
  then have "dval (Double S g) = dval (Double m1 e1) + dval (Double m2 e2)"
    unfolding S_def dval_plus by (simp only: dval_align)
  moreover have "dadd (Double m1 e1) (Double m2 e2) = round53 S g"
    by (simp add: S_def g_def Let_def)
  ultimately show ?thesis using g_def by blast
qed

lemma dval_nonneg: "0 \<le> dval d"
  by (cases d) simp

lemma sum_bound:
  assumes f: "- 1074 \<le> f" and p: "dval (Double P f) \<le> 9000 - 1 / 2 ^ 39"
  shows "1000 \<le> dval (dadd (Double 1000 0) (Double P f))
       \<and> dval (dadd (Double 1000 0) (Double P f)) \<le> 10000 - 1 / 2 ^ 39"
proof -
  from dadd_val [of 1000 0 P f] obtain S g where
    res: "dadd (Double 1000 0) (Double P f) = round53 S g" and g: "g = min 0 f"
    and Y: "dval (Double S g) = dval (Double 1000 0) + dval (Double P f)"
    by blast
  from Y have Y': "dval (Double S g) = 1000 + dval (Double P f)" by simp
  from g f have g1074: "- 1074 \<le> g" by simp
  from Y' p have hi: "dval (Double S g) \<le> 10000 - 1 / 2 ^ 39" by simp
  from Y' dval_nonneg [of "Double P f"] have lo: "1000 \<le> dval (Double S g)" by simp
  from hi have Y14: "dval (Double S g) < 2 powi 14" unfolding p2_14 by simp
  note grid = round_grid [OF g1074 Y14]
  from grid [of "1000 * 2 ^ 39"] lo have "1000 \<le> dval (round53 S g)"
    unfolding grid_1000 by simp
  moreover from grid [of "10000 * 2 ^ 39 - 1"] hi have "dval (round53 S g) \<le> 10000 - 1 / 2 ^ 39"
    unfolding grid_10000 by simp
  ultimately show ?thesis unfolding res by simp
qed

lemma key_range:
  assumes "m < 2 ^ 53" and "- 1074 \<le> e" and "dval (Double m e) < 1"
  shows "1000 \<le> dfloor (dadd (Double 1000 0) (dmul (Double m e) (Double 9000 0)))
       \<and> dfloor (dadd (Double 1000 0) (dmul (Double m e) (Double 9000 0))) < 10000"
proof -
  from product_bound [OF assms] obtain P f where
    p: "dmul (Double m e) (Double 9000 0) = Double P f" "- 1074 \<le> f"
      "dval (Double P f) \<le> 9000 - 1 / 2 ^ 39"
    by blast
  define s where "s = dadd (Double 1000 0) (Double P f)"
  from sum_bound [OF p(2,3)] have lo: "1000 \<le> dval s" and hi: "dval s \<le> 10000 - 1 / 2 ^ 39"
    unfolding s_def by simp_all
  from lo have "(1000 :: int) \<le> \<lfloor>dval s\<rfloor>" by (simp add: le_floor_iff)
  moreover from hi have "dval s < 10000" by simp
  then have "\<lfloor>dval s\<rfloor> < (10000 :: int)" by (simp add: floor_less_iff)
  ultimately have "1000 \<le> nat \<lfloor>dval s\<rfloor> \<and> nat \<lfloor>dval s\<rfloor> < 10000"
    by (simp add: le_nat_iff nat_less_iff)
  then show ?thesis
    unfolding p(1) s_def [symmetric] dfloor_val .
qed

lemma generateSecretKey_4_digits:
  assumes "unit_double r"
  shows "length (generateSecretKey r) = 4 \<and> list_all is_digit (generateSecretKey r)"
proof (cases r)
  case (Double m e)
  let ?n = "dfloor (dadd (Double 1000 0) (dmul (Double m e) (Double 9000 0)))"
  from assms Double have "m < 2 ^ 53" "- 1074 \<le> e" "dval (Double m e) < 1"
    by simp_all
  from key_range [OF this] have n: "1000 \<le> ?n" "?n < 10000" by simp_all
  then have "?n div 1000 < 10" by simp
  with toString_4 [OF n] Double show ?thesis
    by (simp add: generateSecretKey_def is_digit_digit_char)
qed

subsection \<open>Joining a room\<close>

lemma joinRoom_resume:
  assumes "rooms st rid = Some room"
      and "trim n \<noteq> []"
      and "trim k \<noteq> []"
      and "map_of (players room) (trim k) = Some p"
  shows "(case player_joinRoom rnd st sid rid (Some n) (Some k) of
         (ack, st', emits) \<Rightarrow>
           ack = Inr \<lparr>join_name = n, join_secretKey = trim k, join_rejoin = True,
                      join_cardNumbers = (if truthy (cardNumbers p) then cardNumbers p else Prim JNull),
                      join_room = \<lparr>sum_roomId = rid, sum_minNumber = minNumber room,
                                   sum_maxNumber = maxNumber room,
                                   sum_drawnNumbers = drawnNumbers room\<rparr>\<rparr>
           \<and> (case rooms st' rid of
                 None \<Rightarrow> False
               | Some room' \<Rightarrow>
                   room' = room\<lparr>players := players room'\<rparr>
                   \<and> map fst (players room') = map fst (players room)
                   \<and> map_of (players room') =
                       (map_of (players room))(trim k \<mapsto> p\<lparr>name := n, socketId := Some sid\<rparr>)))"
proof -
  from assms(2) have "n \<noteq> []"
    by (auto simp add: trim_Nil)
  with assms show ?thesis
    by (simp add: player_joinRoom_def Let_def js_put_present keys_replace_value
        map_of_replace_value)
qed

lemma joinRoom_generated:
  assumes "rooms st rid = Some room"
      and "trim n \<noteq> []"
      and blank: "secret = None \<or> (\<exists>b. secret = Some b \<and> trim b = [])"
      and r: "unit_double rnd"
  shows "length (generateSecretKey rnd) = 4 \<and> list_all is_digit (generateSecretKey rnd)
         \<and> (case player_joinRoom rnd st sid rid (Some n) secret of
               (ack, st', emits) \<Rightarrow>
                 (case rooms st' rid of
                    None \<Rightarrow> False
                  | Some room' \<Rightarrow>
                      room' = room\<lparr>players := players room'\<rparr>
                      \<and> (case map_of (players room) (generateSecretKey rnd) of
                            None \<Rightarrow>
                              ack = Inr \<lparr>join_name = n, join_secretKey = generateSecretKey rnd,
                                         join_rejoin = False, join_cardNumbers = Prim JNull,
                                         join_room = \<lparr>sum_roomId = rid, sum_minNumber = minNumber room,
                                                      sum_maxNumber = maxNumber room,
                                                      sum_drawnNumbers = drawnNumbers room\<rparr>\<rparr>
                              \<and> length (players room') = Suc (length (players room))
                              \<and> map_of (players room') =
                                  (map_of (players room))(generateSecretKey rnd \<mapsto>
                                     \<lparr>name = n, secretKey = generateSecretKey rnd,
                                      socketId = Some sid, cardNumbers = Prim JNull\<rparr>)
                          | Some q \<Rightarrow>
                              ack = Inr \<lparr>join_name = n, join_secretKey = generateSecretKey rnd,
                                         join_rejoin = True,
                                         join_cardNumbers =
                                           (if truthy (cardNumbers q) then cardNumbers q else Prim JNull),
                                         join_room = \<lparr>sum_roomId = rid, sum_minNumber = minNumber room,
                                                      sum_maxNumber = maxNumber room,
                                                      sum_drawnNumbers = drawnNumbers room\<rparr>\<rparr>
                              \<and> map fst (players room') = map fst (players room)
                              \<and> map_of (players room') =
                                  (map_of (players room))(generateSecretKey rnd \<mapsto>
                                     q\<lparr>name := n, socketId := Some sid\<rparr>))))"
proof -
  from assms(2) have n: "n \<noteq> []"
    by (auto simp add: trim_Nil)
  from blank have key0: "trim (case secret of None \<Rightarrow> [] | Some k \<Rightarrow> k) = []"
    by (auto simp add: trim_Nil)
  note g = generateSecretKey_4_digits [OF r]
  from assms(1,2) n key0 g show ?thesis
    by (cases "map_of (players room) (generateSecretKey rnd)")
       (simp_all add: player_joinRoom_def Let_def js_put_present keys_replace_value
          map_of_replace_value map_of_js_put js_put_absent)
qed

lemma unit_half: "unit_double (Double 1 (- 1))"
  by (simp add: power_int_minus)

lemma unit_213: "unit_double (Double 213 (- 13))"
  by (simp add: power_int_minus)

lemma bits_9000: "bits 9000 = 14" and bits_11000: "bits 11000 = 14"
  and bits_1917000: "bits 1917000 = 21" and bits_10109000: "bits 10109000 = 24"
  and bits_product: "bits 4617315517961601000 = 63" and bits_sum: "bits 5608608813285376 = 53"
  by (simp_all add: bits.simps)

lemma secret_1234: "generateSecretKey (Double 213 (- 13)) = ''1234''"
proof -
  have m: "dmul (Double 213 (- 13)) (Double 9000 0) = Double 1917000 (- 13)"
    by (simp add: round53_def rne_def bits_1917000 Let_def)
  have a: "dadd (Double 1000 0) (Double 1917000 (- 13)) = Double 10109000 (- 13)"
    by (simp add: round53_def rne_def bits_10109000 Let_def)
  have f: "dfloor (Double 10109000 (- 13)) = 1234"
    by simp
  show ?thesis
    unfolding generateSecretKey_def m a f
    by (simp add: toString.simps digit_char_def)
qed

lemma secret_5500: "generateSecretKey (Double 1 (- 1)) = ''5500''"
proof -
  have m: "dmul (Double 1 (- 1)) (Double 9000 0) = Double 9000 (- 1)"
    by (simp add: round53_def rne_def bits_9000 Let_def)
  have a: "dadd (Double 1000 0) (Double 9000 (- 1)) = Double 11000 (- 1)"
    by (simp add: round53_def rne_def bits_11000 Let_def)
  have f: "dfloor (Double 11000 (- 1)) = 5500"
    by simp
  show ?thesis
    unfolding generateSecretKey_def m a f
    by (simp add: toString.simps digit_char_def)
qed

text \<open>
  A value on which the rounding of the product decides the key: the exact product
  is \<open>4101 - 24 / 2^50\<close>, the double product is 4101.
\<close>

lemma secret_5101: "generateSecretKey (Double 513035057551289 (- 50)) = ''5101''"
proof -
  have m: "dmul (Double 513035057551289 (- 50)) (Double 9000 0) = Double 4509097185509376 (- 40)"
    by (simp add: round53_def rne_def bits_product Let_def)
  have a: "dadd (Double 1000 0) (Double 4509097185509376 (- 40)) = Double 5608608813285376 (- 40)"
    by (simp add: round53_def rne_def bits_sum Let_def)
  have f: "dfloor (Double 5608608813285376 (- 40)) = 5101"
    by simp
  show ?thesis
    unfolding generateSecretKey_def m a f
    by (simp add: toString.simps digit_char_def)
qed

text \<open>
  C4, as amended: for every existing room and every non-blank name, \<open>joinRoom\<close> with a
  \<open>secretKey\<close> that, trimmed, is not empty and is the key of an existing Player record
  resumes that record (no record is added, the order of the records is kept), answers
  \<open>rejoin = true\<close> with the trimmed key and the saved \<open>cardNumbers\<close> (\<open>null\<close> in place of
  a saved value that is falsy), and sets the record's name and connection. With an
  omitted or blank \<open>secretKey\<close> the key is generated (for \<open>0 \<le> Math.random() < 1\<close>, four
  decimal digits) and returned; when no record of the room has that key, the answer
  is \<open>rejoin = false\<close> with \<open>null\<close> cards and one record is added, bound to the caller,
  with \<open>null\<close> cards; when a record of the room already has that key, which line 139
  does not tell apart from a key the client sent, that record is resumed and the
  answer is \<open>rejoin = true\<close> with its cards.
\<close>

theorem joinRoom_key:
  assumes "rooms st rid = Some room"
      and "trim n \<noteq> []"
  shows
   "(trim k \<noteq> [] \<and> map_of (players room) (trim k) = Some p \<longrightarrow>
      (case player_joinRoom rnd st sid rid (Some n) (Some k) of
         (ack, st', emits) \<Rightarrow>
           ack = Inr \<lparr>join_name = n, join_secretKey = trim k, join_rejoin = True,
                      join_cardNumbers = (if truthy (cardNumbers p) then cardNumbers p else Prim JNull),
                      join_room = \<lparr>sum_roomId = rid, sum_minNumber = minNumber room,
                                   sum_maxNumber = maxNumber room,
                                   sum_drawnNumbers = drawnNumbers room\<rparr>\<rparr>
           \<and> (case rooms st' rid of
                 None \<Rightarrow> False
               | Some room' \<Rightarrow>
                   room' = room\<lparr>players := players room'\<rparr>
                   \<and> map fst (players room') = map fst (players room)
                   \<and> map_of (players room') =
                       (map_of (players room))(trim k \<mapsto> p\<lparr>name := n, socketId := Some sid\<rparr>))))
    \<and> ((secret = None \<or> (\<exists>b. secret = Some b \<and> trim b = [])) \<and> unit_double rnd \<longrightarrow>
         length (generateSecretKey rnd) = 4 \<and> list_all is_digit (generateSecretKey rnd)
         \<and> (case player_joinRoom rnd st sid rid (Some n) secret of
               (ack, st', emits) \<Rightarrow>
                 (case rooms st' rid of
                    None \<Rightarrow> False
                  | Some room' \<Rightarrow>
                      room' = room\<lparr>players := players room'\<rparr>
                      \<and> (case map_of (players room) (generateSecretKey rnd) of
                            None \<Rightarrow>
                              ack = Inr \<lparr>join_name = n, join_secretKey = generateSecretKey rnd,
                                         join_rejoin = False, join_cardNumbers = Prim JNull,
                                         join_room = \<lparr>sum_roomId = rid, sum_minNumber = minNumber room,
                                                      sum_maxNumber = maxNumber room,
                                                      sum_drawnNumbers = drawnNumbers room\<rparr>\<rparr>
                              \<and> length (players room') = Suc (length (players room))
                              \<and> map_of (players room') =
                                  (map_of (players room))(generateSecretKey rnd \<mapsto>
                                     \<lparr>name = n, secretKey = generateSecretKey rnd,
                                      socketId = Some sid, cardNumbers = Prim JNull\<rparr>)
                          | Some q \<Rightarrow>
                              ack = Inr \<lparr>join_name = n, join_secretKey = generateSecretKey rnd,
                                         join_rejoin = True,
                                         join_cardNumbers =
                                           (if truthy (cardNumbers q) then cardNumbers q else Prim JNull),
                                         join_room = \<lparr>sum_roomId = rid, sum_minNumber = minNumber room,
                                                      sum_maxNumber = maxNumber room,
                                                      sum_drawnNumbers = drawnNumbers room\<rparr>\<rparr>
                              \<and> map fst (players room') = map fst (players room)
                              \<and> map_of (players room') =
                                  (map_of (players room))(generateSecretKey rnd \<mapsto>
                                     q\<lparr>name := n, socketId := Some sid\<rparr>)))))"
proof (rule conjI, goal_cases)
  case 1
  show ?case
    by (rule impI, elim conjE, rule joinRoom_resume [OF assms])
next
  case 2
  show ?case
    by (rule impI, elim conjE, rule joinRoom_generated [OF assms])
qed

lemma trim_1234: "trim '' 1234 '' = ''1234''"
  by (simp add: trim_def js_space_def)

lemma trim_Bob: "trim ''Bob'' = ''Bob''"
  by (simp add: trim_def js_space_def)

lemma rooms_state_R1: "rooms state_R1 ''R1'' = Some room_R1"
  by (simp add: state_R1_def)

lemma alice_at_1234: "map_of (players room_R1) ''1234'' = Some alice"
  by (simp add: room_R1_def)

theorem joinRoom_key_witness:
  "rooms state_R1 ''R1'' = Some room_R1 \<and> trim ''Bob'' \<noteq> []
   \<and> trim '' 1234 '' \<noteq> [] \<and> map_of (players room_R1) (trim '' 1234 '') = Some alice
   \<and> fst (player_joinRoom (Double 1 (- 1)) state_R1 3 ''R1'' (Some ''Bob'') (Some '' 1234 ''))
       = Inr \<lparr>join_name = ''Bob'', join_secretKey = ''1234'', join_rejoin = True,
              join_cardNumbers = Arr [Prim (JNum (Fin 3)), Prim (JNum (Fin 17))],
              join_room = \<lparr>sum_roomId = ''R1'', sum_minNumber = Fin 1, sum_maxNumber = Fin 75,
                           sum_drawnNumbers = [Fin 17]\<rparr>\<rparr>
   \<and> unit_double (Double 1 (- 1)) \<and> generateSecretKey (Double 1 (- 1)) = ''5500''
   \<and> map_of (players room_R1) ''5500'' = None
   \<and> fst (player_joinRoom (Double 1 (- 1)) state_R1 3 ''R1'' (Some ''Bob'') None)
       = Inr \<lparr>join_name = ''Bob'', join_secretKey = ''5500'', join_rejoin = False,
              join_cardNumbers = Prim JNull,
              join_room = \<lparr>sum_roomId = ''R1'', sum_minNumber = Fin 1, sum_maxNumber = Fin 75,
                           sum_drawnNumbers = [Fin 17]\<rparr>\<rparr>"
proof -
  have n: "trim ''Bob'' \<noteq> []"
    by (simp add: trim_Bob)
  have k: "trim '' 1234 '' \<noteq> [] \<and> map_of (players room_R1) (trim '' 1234 '') = Some alice"
    by (simp add: trim_1234 alice_at_1234)
  have fresh: "map_of (players room_R1) ''5500'' = None"
    by (simp add: room_R1_def)
  have range: "unit_double (Double 1 (- 1))"
    by (rule unit_half)
  note t = joinRoom_key [OF rooms_state_R1 n, where k = "'' 1234 ''" and p = alice
      and rnd = "Double 1 (- 1)" and sid = 3 and secret = None]
  from t [THEN conjunct1] k
  have c1: "fst (player_joinRoom (Double 1 (- 1)) state_R1 3 ''R1'' (Some ''Bob'') (Some '' 1234 ''))
       = Inr \<lparr>join_name = ''Bob'', join_secretKey = ''1234'', join_rejoin = True,
              join_cardNumbers = Arr [Prim (JNum (Fin 3)), Prim (JNum (Fin 17))],
              join_room = \<lparr>sum_roomId = ''R1'', sum_minNumber = Fin 1, sum_maxNumber = Fin 75,
                           sum_drawnNumbers = [Fin 17]\<rparr>\<rparr>"
    by (auto simp add: trim_1234 alice_def room_R1_def split: prod.splits option.splits)
  from t [THEN conjunct2] range fresh
  have c2: "fst (player_joinRoom (Double 1 (- 1)) state_R1 3 ''R1'' (Some ''Bob'') None)
       = Inr \<lparr>join_name = ''Bob'', join_secretKey = ''5500'', join_rejoin = False,
              join_cardNumbers = Prim JNull,
              join_room = \<lparr>sum_roomId = ''R1'', sum_minNumber = Fin 1, sum_maxNumber = Fin 75,
                           sum_drawnNumbers = [Fin 17]\<rparr>\<rparr>"
    by (auto simp add: secret_5500 [unfolded One_nat_def] room_R1_def
        split: prod.splits option.splits)
  from rooms_state_R1 n k range fresh c1 c2 secret_5500 show ?thesis
    by simp
qed

theorem joinRoom_key_counterexample:
  "rooms state_R1 ''R1'' = Some room_R1 \<and> map_of (players room_R1) ''1234'' = Some alice
   \<and> unit_double (Double 213 (- 13)) \<and> generateSecretKey (Double 213 (- 13)) = ''1234''
   \<and> player_joinRoom (Double 213 (- 13)) state_R1 3 ''R1'' (Some ''Bob'') None
       = (Inr \<lparr>join_name = ''Bob'', join_secretKey = ''1234'', join_rejoin = True,
               join_cardNumbers = Arr [Prim (JNum (Fin 3)), Prim (JNum (Fin 17))],
               join_room = \<lparr>sum_roomId = ''R1'', sum_minNumber = Fin 1, sum_maxNumber = Fin 75,
                            sum_drawnNumbers = [Fin 17]\<rparr>\<rparr>,
          state_R1\<lparr>rooms := [''R1'' \<mapsto>
                      room_R1\<lparr>players := [(''1234'', alice\<lparr>name := ''Bob'', socketId := Some 3\<rparr>)]\<rparr>],
                   sockets := (sockets state_R1)(3 :=
                      \<lparr>data_role = Some Player, data_roomId = Some ''R1'',
                       data_secretKey = Some ''1234''\<rparr>)\<rparr>,
          [(ToSocket 1, PlayersUpdate [''Bob''])])"
  by (simp add: state_R1_def room_R1_def alice_def secret_1234 player_joinRoom_def trim_Bob
      trim_Nil Let_def js_put_def emitPlayersUpdate_def online_names_def)

subsection \<open>One key on two connections\<close>

lemma filter_replace_value:
  "filter (\<lambda>e. fst e \<noteq> k) (replace_value k v ps) = filter (\<lambda>e. fst e \<noteq> k) ps"
  by (induction ps) auto

text \<open>
  C10, as amended: a room whose id is not the empty string holds a Player record whose
  non-empty key is bound to a live connection \<open>s1\<close>, and \<open>s1\<close> is associated as a player
  with that room and that key. When a second connection \<open>s2\<close> joins, under a non-blank
  name, with a \<open>secretKey\<close> that trimmed is this key, the call succeeds as a rejoin and
  the record's \<open>socketId\<close> is rebound to \<open>s2\<close>; nothing is sent but the names of the
  online players, to the host. When \<open>s1\<close> is closed next, still associated with that
  room and key, the record's \<open>socketId\<close> is set to null all the same, although \<open>s2\<close> is
  still associated with the record: the names sent to the host are those of the
  online players among the other records only. In the room with the empty id, and
  when \<open>s1\<close> has become the host of a room in between, closing \<open>s1\<close> leaves the record
  bound to \<open>s2\<close>.
\<close>

theorem rebound_player_goes_offline:
  assumes "rooms st rid = Some room"
      and "rid \<noteq> []"
      and "distinct (map fst (players room))"
      and "map_of (players room) key = Some p"
      and "socketId p = Some s1"
      and "sockets st s1 =
             \<lparr>data_role = Some Player, data_roomId = Some rid, data_secretKey = Some key\<rparr>"
      and "s2 \<noteq> s1"
      and "trim k = key"
      and "key \<noteq> []"
      and "trim n \<noteq> []"
  shows "case player_joinRoom rnd st s2 rid (Some n) (Some k) of
           (ack, st1, emits1) \<Rightarrow>
             (case disconnect st1 s1 of
                (st2, emits2) \<Rightarrow>
                  (case ack of Inl e \<Rightarrow> False | Inr a \<Rightarrow> join_rejoin a \<and> join_secretKey a = key)
                  \<and> emits1 =
                      (case hostSocketId room of
                         None \<Rightarrow> []
                       | Some h \<Rightarrow>
                           [(ToSocket h,
                             PlayersUpdate
                               (online_names
                                  (replace_value key (p\<lparr>name := n, socketId := Some s2\<rparr>)
                                     (players room))))])
                  \<and> player_at st1 rid key = Some (p\<lparr>name := n, socketId := Some s2\<rparr>)
                  \<and> player_at st2 rid key = Some (p\<lparr>name := n, socketId := None\<rparr>)
                  \<and> sockets st2 s2 =
                      \<lparr>data_role = Some Player, data_roomId = Some rid, data_secretKey = Some key\<rparr>
                  \<and> emits2 =
                      (case hostSocketId room of
                         None \<Rightarrow> []
                       | Some h \<Rightarrow>
                           [(ToSocket h,
                             PlayersUpdate
                               (online_names (filter (\<lambda>e. fst e \<noteq> key) (players room))))]))"
proof -
  from assms(10) have n: "n \<noteq> []"
    by (auto simp add: trim_Nil)
  let ?p1 = "p\<lparr>name := n, socketId := Some s2\<rparr>"
  let ?ps1 = "replace_value key ?p1 (players room)"
  let ?room1 = "room\<lparr>players := ?ps1\<rparr>"
  let ?st1 = "st\<lparr>rooms := (rooms st)(rid \<mapsto> ?room1),
                  sockets := (sockets st)(s2 :=
                    \<lparr>data_role = Some Player, data_roomId = Some rid, data_secretKey = Some key\<rparr>)\<rparr>"
  have join: "player_joinRoom rnd st s2 rid (Some n) (Some k) =
      (Inr \<lparr>join_name = n, join_secretKey = key, join_rejoin = True,
             join_cardNumbers = (if truthy (cardNumbers p) then cardNumbers p else Prim JNull),
             join_room = \<lparr>sum_roomId = rid, sum_minNumber = minNumber room,
                          sum_maxNumber = maxNumber room,
                          sum_drawnNumbers = drawnNumbers room\<rparr>\<rparr>,
       ?st1, emitPlayersUpdate ?st1 rid)"
    using assms(1,4,8,9,10) n by (simp add: player_joinRoom_def Let_def js_put_present)
  have m1: "map_of ?ps1 key = Some ?p1"
    using assms(4) by (simp add: map_of_replace_value)
  have d1: "distinct (map fst ?ps1)"
    using assms(3) by (simp add: keys_replace_value)
  let ?p2 = "?p1\<lparr>socketId := None\<rparr>"
  let ?ps2 = "replace_value key ?p2 ?ps1"
  let ?st2 = "?st1\<lparr>rooms := (rooms ?st1)(rid \<mapsto> ?room1\<lparr>players := ?ps2\<rparr>)\<rparr>"
  have disc: "disconnect ?st1 s1 = (?st2, emitPlayersUpdate ?st2 rid)"
    using assms(2,6,7) m1 by (simp add: disconnect_def Let_def js_put_present)
  have names: "online_names ?ps2 = online_names (filter (\<lambda>e. fst e \<noteq> key) (players room))"
  proof -
    have "online_names ?ps2 = online_names (filter (\<lambda>e. fst e \<noteq> key) ?ps1)"
      using d1 by (simp add: online_replace_offline)
    also have "filter (\<lambda>e. fst e \<noteq> key) ?ps1 = filter (\<lambda>e. fst e \<noteq> key) (players room)"
      by (rule filter_replace_value)
    finally show ?thesis .
  qed
  have m2: "map_of ?ps2 key = Some ?p2"
    using m1 by (simp add: map_of_replace_value)
  show ?thesis
    using m1 m2 names assms(7)
    by (simp add: join disc player_at_def emitPlayersUpdate_def split: option.splits)
qed

theorem rebound_player_goes_offline_witness:
  "rooms state_R1 ''R1'' = Some room_R1 \<and> distinct (map fst (players room_R1))
   \<and> map_of (players room_R1) ''1234'' = Some alice \<and> socketId alice = Some 2
   \<and> sockets state_R1 2 =
        \<lparr>data_role = Some Player, data_roomId = Some ''R1'', data_secretKey = Some ''1234''\<rparr>
   \<and> trim '' 1234 '' = ''1234'' \<and> trim ''Bob'' \<noteq> []
   \<and> player_at (fst (snd (player_joinRoom (Double 1 (- 1)) state_R1 3 ''R1'' (Some ''Bob'')
                              (Some '' 1234 '')))) ''R1'' ''1234''
       = Some (alice\<lparr>name := ''Bob'', socketId := Some 3\<rparr>)
   \<and> player_at (fst (disconnect (fst (snd (player_joinRoom (Double 1 (- 1)) state_R1 3 ''R1'' (Some ''Bob'')
                                              (Some '' 1234 '')))) 2)) ''R1'' ''1234''
       = Some (alice\<lparr>name := ''Bob'', socketId := None\<rparr>)
   \<and> snd (disconnect (fst (snd (player_joinRoom (Double 1 (- 1)) state_R1 3 ''R1'' (Some ''Bob'')
                                    (Some '' 1234 '')))) 2)
       = [(ToSocket 1, PlayersUpdate [])]"
proof -
  have d: "distinct (map fst (players room_R1))"
    by (simp add: room_R1_def)
  have s: "socketId alice = Some 2"
    by (simp add: alice_def)
  have a: "sockets state_R1 2 =
        \<lparr>data_role = Some Player, data_roomId = Some ''R1'', data_secretKey = Some ''1234''\<rparr>"
    by (simp add: state_R1_def)
  have n: "trim ''Bob'' \<noteq> []"
    by (simp add: trim_Bob)
  from rebound_player_goes_offline [OF rooms_state_R1 _ d alice_at_1234 s a _ trim_1234 _ n,
      where ?s2.0 = 3 and rnd = "Double 1 (- 1)"]
  have "player_at (fst (snd (player_joinRoom (Double 1 (- 1)) state_R1 3 ''R1'' (Some ''Bob'')
                              (Some '' 1234 '')))) ''R1'' ''1234''
       = Some (alice\<lparr>name := ''Bob'', socketId := Some 3\<rparr>)
   \<and> player_at (fst (disconnect (fst (snd (player_joinRoom (Double 1 (- 1)) state_R1 3 ''R1'' (Some ''Bob'')
                                              (Some '' 1234 '')))) 2)) ''R1'' ''1234''
       = Some (alice\<lparr>name := ''Bob'', socketId := None\<rparr>)
   \<and> snd (disconnect (fst (snd (player_joinRoom (Double 1 (- 1)) state_R1 3 ''R1'' (Some ''Bob'')
                                    (Some '' 1234 '')))) 2)
       = [(ToSocket 1, PlayersUpdate [])]"
    by (simp add: case_prod_beta room_R1_def online_names_def)
  with rooms_state_R1 d alice_at_1234 s a trim_1234 n show ?thesis
    by simp
qed

theorem rebound_player_goes_offline_counterexample:
  "run decimal_s2n init noid_ops = state_noid
   \<and> player_at state_noid [] ''1234''
       = Some \<lparr>name = ''Alice'', secretKey = ''1234'', socketId = Some 2, cardNumbers = Prim JNull\<rparr>
   \<and> player_at (run decimal_s2n state_noid noid_rebind_ops) [] ''1234''
       = Some \<lparr>name = ''Bob'', secretKey = ''1234'', socketId = Some 3, cardNumbers = Prim JNull\<rparr>
   \<and> player_at state_R1 ''R1'' ''1234'' = Some alice \<and> socketId alice = Some 2
   \<and> player_at (run decimal_s2n state_R1 host_rebind_ops) ''R1'' ''1234''
       = Some (alice\<lparr>name := ''Bob'', socketId := Some 3\<rparr>)
   \<and> hostSocketId room_R1 = Some 1
   \<and> emitPlayersUpdate (run decimal_s2n state_R1 host_rebind_ops) ''R1''
       = [(ToSocket 1, PlayersUpdate [''Bob''])]"
proof -
  have a: "player_at state_noid [] ''1234''
       = Some \<lparr>name = ''Alice'', secretKey = ''1234'', socketId = Some 2, cardNumbers = Prim JNull\<rparr>"
    by (simp add: state_noid_def room_noid_def player_at_def)
  have b: "player_at (run decimal_s2n state_noid noid_rebind_ops) [] ''1234''
       = Some \<lparr>name = ''Bob'', secretKey = ''1234'', socketId = Some 3, cardNumbers = Prim JNull\<rparr>"
    by (simp add: noid_rebind_ops_def run_def state_noid_def room_noid_def no_data_def
        player_at_def player_joinRoom_def disconnect_def trim_def js_space_def js_put_def
        emitPlayersUpdate_def online_names_def Let_def)
  have c: "player_at state_R1 ''R1'' ''1234'' = Some alice \<and> socketId alice = Some 2
      \<and> hostSocketId room_R1 = Some 1"
    by (simp add: state_R1_def room_R1_def alice_def player_at_def)
  have d: "player_at (run decimal_s2n state_R1 host_rebind_ops) ''R1'' ''1234''
         = Some (alice\<lparr>name := ''Bob'', socketId := Some 3\<rparr>)
       \<and> emitPlayersUpdate (run decimal_s2n state_R1 host_rebind_ops) ''R1''
         = [(ToSocket 1, PlayersUpdate [''Bob''])]"
    by (simp add: host_rebind_ops_def run_def state_R1_def room_R1_def alice_def no_data_def
        player_at_def player_joinRoom_def host_createRoom_def disconnect_def inputId_def
        known_room_def trim_def js_space_def js_put_def emitPlayersUpdate_def online_names_def
        Let_def)
  from run_noid a b c d show ?thesis
    by simp
qed

subsection \<open>The draw history only grows\<close>

lemma createRoom_drawn:
  assumes "\<not> loses_history s2n st rid (CreateOrRejoinRoom sid gen i minN maxN)"
      and "rooms st rid = Some r"
  shows "\<exists>r'. rooms (fst (snd (host_createRoom s2n gen st sid i minN maxN))) rid = Some r'
              \<and> drawnNumbers r' = drawnNumbers r"
  using assms
  by (auto simp add: loses_history_def drawn_def host_createRoom_def known_room_def Let_def
      split: option.splits)

lemma createRoom_lost:
  assumes "loses_history s2n st rid (CreateOrRejoinRoom sid gen i minN maxN)"
  shows "drawn (fst (snd (host_createRoom s2n gen st sid i minN maxN))) rid = []"
  using assms
  by (auto simp add: loses_history_def drawn_def host_createRoom_def known_room_def Let_def
      split: option.splits)

lemma step_lost:
  assumes "loses_history s2n st rid x"
  shows "drawn (step s2n st x) rid = []"
proof (cases x)
  case (CreateOrRejoinRoom sid gen i minN maxN)
  with createRoom_lost [of s2n st rid sid gen i minN maxN] assms show ?thesis
    by simp
qed (use assms in \<open>simp_all add: loses_history_def\<close>)

lemma joinRoom_drawn:
  assumes "rooms st rid = Some r"
  shows "\<exists>r'. rooms (fst (snd (player_joinRoom rnd st sid i nm secret))) rid = Some r'
              \<and> drawnNumbers r' = drawnNumbers r"
  using assms
  by (auto simp add: player_joinRoom_def Let_def split: option.splits)

lemma saveCard_drawn:
  assumes "rooms st rid = Some r"
  shows "\<exists>r'. rooms (fst (snd (player_saveCard st i secret cards))) rid = Some r'
              \<and> drawnNumbers r' = drawnNumbers r"
  using assms
  by (auto simp add: player_saveCard_def split: option.splits)

lemma disconnect_drawn:
  assumes "rooms st rid = Some r"
  shows "\<exists>r'. rooms (fst (disconnect st sid)) rid = Some r'
              \<and> drawnNumbers r' = drawnNumbers r"
  using assms
  by (auto simp add: disconnect_def Let_def split: option.splits role.splits)

lemma drawNumber_drawn:
  assumes "rooms st rid = Some r"
  shows "\<exists>r'. rooms (fst (snd (host_drawNumber s2n st sid i num))) rid = Some r'
              \<and> (drawnNumbers r' = drawnNumbers r
                  \<or> (\<exists>n. n \<notin> set (drawnNumbers r) \<and> drawnNumbers r' = drawnNumbers r @ [n]))"
  using assms
  by (auto simp add: host_drawNumber_def Let_def split: option.splits)

lemma step_drawn:
  assumes "\<not> loses_history s2n st rid x"
      and "rooms st rid = Some r"
  shows "\<exists>r'. rooms (step s2n st x) rid = Some r'
              \<and> (drawnNumbers r' = drawnNumbers r
                  \<or> (\<exists>n. n \<notin> set (drawnNumbers r) \<and> drawnNumbers r' = drawnNumbers r @ [n]))"
proof (cases x)
  case (CreateOrRejoinRoom sid gen i minN maxN)
  with createRoom_drawn [of s2n st rid sid gen i minN maxN r] assms show ?thesis
    by auto
next
  case (JoinRoom sid rnd i nm secret)
  with joinRoom_drawn [OF assms(2), of rnd sid i nm secret] show ?thesis
    by auto
next
  case (SaveCard i secret cards)
  with saveCard_drawn [OF assms(2), of i secret cards] show ?thesis
    by auto
next
  case (DrawNumber sid i num)
  with drawNumber_drawn [OF assms(2), of s2n sid i num] show ?thesis
    by simp
next
  case (ReportBingo i nm)
  with assms show ?thesis by simp
next
  case (HandleDisconnect sid)
  with disconnect_drawn [OF assms(2), of sid] show ?thesis
    by auto
qed

lemma step_distinct:
  assumes "\<forall>i r. rooms st i = Some r \<longrightarrow> distinct (drawnNumbers r)"
      and "rooms (step s2n st x) rid = Some r'"
  shows "distinct (drawnNumbers r')"
proof (cases x)
  case (CreateOrRejoinRoom sid gen i minN maxN)
  with assms show ?thesis
    by (auto simp add: host_createRoom_def known_room_def Let_def
        split: option.splits if_splits)
next
  case (JoinRoom sid rnd i nm secret)
  with assms show ?thesis
    by (auto simp add: player_joinRoom_def Let_def split: option.splits if_splits)
next
  case (SaveCard i secret cards)
  with assms show ?thesis
    by (auto simp add: player_saveCard_def split: option.splits if_splits)
next
  case (DrawNumber sid i num)
  with assms show ?thesis
    by (auto simp add: host_drawNumber_def Let_def split: option.splits if_splits)
next
  case (ReportBingo i nm)
  with assms show ?thesis by simp
next
  case (HandleDisconnect sid)
  with assms show ?thesis
    by (auto simp add: disconnect_def Let_def split: option.splits if_splits role.splits)
qed

lemma run_Cons: "run s2n st (x # xs) = run s2n (step s2n st x) xs"
  by (simp add: run_def)

lemma run_Nil: "run s2n st [] = st"
  by (simp add: run_def)

lemma run_distinct:
  "\<forall>i r. rooms st i = Some r \<longrightarrow> distinct (drawnNumbers r) \<Longrightarrow>
     \<forall>i r. rooms (run s2n st ops) i = Some r \<longrightarrow> distinct (drawnNumbers r)"
proof (induction ops arbitrary: st)
  case Nil
  then show ?case by (simp add: run_Nil)
next
  case (Cons x xs)
  from Cons.prems have "\<forall>i r. rooms (step s2n st x) i = Some r \<longrightarrow> distinct (drawnNumbers r)"
    using step_distinct by blast
  from Cons.IH [OF this] show ?case
    by (simp add: run_Cons)
qed

lemma run_drawn:
  "history_kept s2n st rid ops \<Longrightarrow> rooms st rid = Some r \<Longrightarrow>
     \<exists>r' ext. rooms (run s2n st ops) rid = Some r'
       \<and> drawnNumbers r' = drawnNumbers r @ ext \<and> length ext \<le> length ops"
proof (induction ops arbitrary: st r)
  case Nil
  then show ?case by (simp add: run_Nil)
next
  case (Cons x xs)
  from Cons.prems have nc: "\<not> loses_history s2n st rid x"
    and cf: "history_kept s2n (step s2n st x) rid xs"
    by simp_all
  from step_drawn [OF nc Cons.prems(2)] obtain r1 where
    r1: "rooms (step s2n st x) rid = Some r1" and
    alt: "drawnNumbers r1 = drawnNumbers r
          \<or> (\<exists>n. n \<notin> set (drawnNumbers r) \<and> drawnNumbers r1 = drawnNumbers r @ [n])"
    by blast
  from alt have "\<exists>e. drawnNumbers r1 = drawnNumbers r @ e \<and> length e \<le> 1"
  proof
    assume "drawnNumbers r1 = drawnNumbers r"
    then have "drawnNumbers r1 = drawnNumbers r @ [] \<and> length ([] :: jsnum list) \<le> 1"
      by simp
    then show ?thesis by blast
  next
    assume "\<exists>n. n \<notin> set (drawnNumbers r) \<and> drawnNumbers r1 = drawnNumbers r @ [n]"
    then obtain n where "drawnNumbers r1 = drawnNumbers r @ [n]"
      by blast
    then have "drawnNumbers r1 = drawnNumbers r @ [n] \<and> length [n] \<le> 1"
      by simp
    then show ?thesis by blast
  qed
  then obtain e1 where e1: "drawnNumbers r1 = drawnNumbers r @ e1" "length e1 \<le> 1"
    by blast
  from Cons.IH [OF cf r1] obtain r' ext where
    "rooms (run s2n (step s2n st x) xs) rid = Some r'"
    "drawnNumbers r' = drawnNumbers r1 @ ext" "length ext \<le> length xs"
    by blast
  with e1 have "rooms (run s2n st (x # xs)) rid = Some r'
      \<and> drawnNumbers r' = drawnNumbers r @ (e1 @ ext) \<and> length (e1 @ ext) \<le> length (x # xs)"
    by (simp add: run_Cons)
  then show ?case by blast
qed


lemma example_run:
  "history_kept decimal_s2n state_R1 ''R1'' example_ops
   \<and> drawn (run decimal_s2n state_R1 example_ops) ''R1'' = [Fin 17, Fin 42]"
  by (simp add: example_ops_def run_def drawn_def state_R1_def room_R1_def host_drawNumber_def
      decimal_17 disconnect_def host_createRoom_def inputId_def known_room_def slice_def Let_def
      loses_history_def)

lemma rooms_first_host:
  "rooms (run decimal_s2n init first_host_ops) ''k3x9q2''
     = Some \<lparr>roomId = ''k3x9q2'', hostSocketId = Some 1, minNumber = Fin 1, maxNumber = Fin 75,
             drawnNumbers = [Fin 17], players = []\<rparr>"
  by (simp add: first_host_ops_def run_def init_def host_drawNumber_def host_createRoom_def
      inputId_def known_room_def slice_def Let_def)

lemma second_host_loses:
  "loses_history decimal_s2n (run decimal_s2n init first_host_ops) ''k3x9q2'' second_host_op"
  using rooms_first_host
  by (simp add: loses_history_def drawn_def second_host_op_def inputId_def slice_def)

text \<open>
  C1, as amended. In every registry whose rooms have duplicate-free histories (the
  empty registry is one), every sequence of operations leaves every room's
  \<open>drawnNumbers\<close> free of duplicates. A room keeps its place in the registry and its
  \<open>drawnNumbers\<close> only grows at the end, by at most one value for each operation, each
  one a value that was not there, along every sequence of operations in which no
  \<open>createOrRejoinRoom\<close> call with a valid range and without an id of its own generates
  the id of that very room while its \<open>drawnNumbers\<close> is not empty. Calls that
  generate the id of another room, or the id of this room while its history is
  empty, are not excluded. Each excluded call does lose the history: line 98 stores
  the new room under the generated id without looking it up, so the room is replaced
  by one whose \<open>drawnNumbers\<close> is empty.
\<close>

theorem drawnNumbers_append_only:
  "((\<forall>i r. rooms st i = Some r \<longrightarrow> distinct (drawnNumbers r))
      \<longrightarrow> distinct (drawn (run s2n st ops) rid))
   \<and> (history_kept s2n st rid ops \<and> rooms st rid = Some r
      \<longrightarrow> rooms (run s2n st ops) rid \<noteq> None
          \<and> (\<exists>ext. drawn (run s2n st ops) rid = drawnNumbers r @ ext \<and> length ext \<le> length ops))
   \<and> (\<not> loses_history s2n st rid x \<and> rooms st rid = Some r
      \<longrightarrow> rooms (step s2n st x) rid \<noteq> None
          \<and> (drawn (step s2n st x) rid = drawnNumbers r
              \<or> (\<exists>n. n \<notin> set (drawnNumbers r)
                    \<and> drawn (step s2n st x) rid = drawnNumbers r @ [n])))
   \<and> (loses_history s2n st rid x \<and> rooms st rid = Some r
      \<longrightarrow> drawnNumbers r \<noteq> [] \<and> drawn (step s2n st x) rid = [])"
proof (intro conjI impI)
  assume "\<forall>i r. rooms st i = Some r \<longrightarrow> distinct (drawnNumbers r)"
  from run_distinct [OF this, of s2n ops] show "distinct (drawn (run s2n st ops) rid)"
    by (simp add: drawn_def split: option.splits)
next
  assume a: "history_kept s2n st rid ops \<and> rooms st rid = Some r"
  with run_drawn [of s2n st rid ops r] obtain r' ext where
    r': "rooms (run s2n st ops) rid = Some r'"
      "drawnNumbers r' = drawnNumbers r @ ext" "length ext \<le> length ops"
    by blast
  then show "rooms (run s2n st ops) rid \<noteq> None"
    by simp
  from r' have "drawn (run s2n st ops) rid = drawnNumbers r @ ext \<and> length ext \<le> length ops"
    by (simp add: drawn_def)
  then show "\<exists>ext. drawn (run s2n st ops) rid = drawnNumbers r @ ext \<and> length ext \<le> length ops"
    by blast
next
  assume a: "\<not> loses_history s2n st rid x \<and> rooms st rid = Some r"
  with step_drawn [of s2n st rid x r] obtain r' where
    r': "rooms (step s2n st x) rid = Some r'"
      "drawnNumbers r' = drawnNumbers r
       \<or> (\<exists>n. n \<notin> set (drawnNumbers r) \<and> drawnNumbers r' = drawnNumbers r @ [n])"
    by blast
  then show "rooms (step s2n st x) rid \<noteq> None"
    by simp
  from r' show "drawn (step s2n st x) rid = drawnNumbers r
      \<or> (\<exists>n. n \<notin> set (drawnNumbers r) \<and> drawn (step s2n st x) rid = drawnNumbers r @ [n])"
    by (simp add: drawn_def)
next
  assume a: "loses_history s2n st rid x \<and> rooms st rid = Some r"
  then show "drawnNumbers r \<noteq> []"
    by (auto simp add: loses_history_def drawn_def)
  from a step_lost [of s2n st rid x] show "drawn (step s2n st x) rid = []"
    by simp
qed

theorem drawnNumbers_append_only_witness:
  "history_kept decimal_s2n state_R1 ''R1'' example_ops \<and> rooms state_R1 ''R1'' = Some room_R1
   \<and> distinct (drawn (run decimal_s2n state_R1 example_ops) ''R1'')
   \<and> rooms (run decimal_s2n state_R1 example_ops) ''R1'' \<noteq> None
   \<and> drawn (run decimal_s2n state_R1 example_ops) ''R1'' = drawnNumbers room_R1 @ [Fin 42]
   \<and> \<not> loses_history decimal_s2n state_R1 ''R1'' (DrawNumber 1 ''R1'' (JNum (Fin 42)))
   \<and> rooms (step decimal_s2n state_R1 (DrawNumber 1 ''R1'' (JNum (Fin 42)))) ''R1'' \<noteq> None
   \<and> loses_history decimal_s2n (run decimal_s2n init first_host_ops) ''k3x9q2'' second_host_op
   \<and> drawn (run decimal_s2n init first_host_ops) ''k3x9q2'' = [Fin 17]
   \<and> drawn (step decimal_s2n (run decimal_s2n init first_host_ops) second_host_op) ''k3x9q2'' = []"
proof -
  have d: "\<forall>i r. rooms state_R1 i = Some r \<longrightarrow> distinct (drawnNumbers r)"
    by (simp add: state_R1_def room_R1_def)
  have cf: "history_kept decimal_s2n state_R1 ''R1'' example_ops"
    using example_run by simp
  have nc: "\<not> loses_history decimal_s2n state_R1 ''R1'' (DrawNumber 1 ''R1'' (JNum (Fin 42)))"
    by (simp add: loses_history_def)
  note t = drawnNumbers_append_only [where st = state_R1 and ops = example_ops
      and ?s2n.0 = decimal_s2n and rid = "''R1''" and r = room_R1
      and x = "DrawNumber 1 ''R1'' (JNum (Fin 42))"]
  note u = drawnNumbers_append_only [where st = "run decimal_s2n init first_host_ops"
      and ?s2n.0 = decimal_s2n and rid = "''k3x9q2''" and x = second_host_op
      and r = "\<lparr>roomId = ''k3x9q2'', hostSocketId = Some 1, minNumber = Fin 1, maxNumber = Fin 75,
                 drawnNumbers = [Fin 17], players = []\<rparr>"]
  from t [THEN conjunct1] d
  have c1: "distinct (drawn (run decimal_s2n state_R1 example_ops) ''R1'')"
    by blast
  from t [THEN conjunct2, THEN conjunct1] cf rooms_state_R1
  have c2: "rooms (run decimal_s2n state_R1 example_ops) ''R1'' \<noteq> None"
    by blast
  from t [THEN conjunct2, THEN conjunct2, THEN conjunct1] nc rooms_state_R1
  have c3: "rooms (step decimal_s2n state_R1 (DrawNumber 1 ''R1'' (JNum (Fin 42)))) ''R1'' \<noteq> None"
    by blast
  have c4: "drawn (run decimal_s2n state_R1 example_ops) ''R1'' = drawnNumbers room_R1 @ [Fin 42]"
    using example_run by (simp add: room_R1_def)
  from u [THEN conjunct2, THEN conjunct2, THEN conjunct2] second_host_loses rooms_first_host
  have c5: "drawn (step decimal_s2n (run decimal_s2n init first_host_ops) second_host_op) ''k3x9q2'' = []"
    by blast
  have c6: "drawn (run decimal_s2n init first_host_ops) ''k3x9q2'' = [Fin 17]"
    using rooms_first_host by (simp add: drawn_def)
  from cf rooms_state_R1 c1 c2 c3 c4 nc second_host_loses c5 c6 show ?thesis
    by simp
qed

theorem drawnNumbers_lost_counterexample:
  "drawn (run decimal_s2n init first_host_ops) ''k3x9q2'' = [Fin 17]
   \<and> drawn (run decimal_s2n init (first_host_ops @ [second_host_op])) ''k3x9q2'' = []
   \<and> drawn (step decimal_s2n (run decimal_s2n init first_host_ops) second_host_op) ''k3x9q2'' = []"
  by (simp add: first_host_ops_def second_host_op_def run_def drawn_def init_def
      host_drawNumber_def host_createRoom_def inputId_def known_room_def slice_def Let_def)

end
